theory Spec2Isabelle
  imports Complex_Main
begin

section \<open>Python exceptions as values\<close>

text \<open>
  Every raise of the modelled sources is a branch of the model: a function that can raise
  returns \<open>py_error + 'a\<close>, with \<open>Inl\<close> for the exception that reaches the caller.
\<close>

datatype py_error =
    AssertionError string
  | ValueError
  | IndexError
  | KeyError string
  | AttributeError string
  | RuntimeError
  | FileExistsError string
  | FileNotFoundError string
  | NotADirectoryError
  | ZeroDivisionError

section \<open>lib/utils.py: padding\<close>

text \<open>
  A one-dimensional \<open>torch.LongTensor\<close> is the list of its entries. \<open>PADDING_INDEX\<close> is
  imported from \<open>lib.text_encoders\<close>, whose source is not part of the files at hand, so it
  is an argument of the two functions.

  \<^verbatim>\<open>
  def pad_tensor(tensor, length):
      n_padding = length - len(tensor)
      padding = torch.LongTensor(n_padding * [PADDING_INDEX])
      return torch.cat((tensor, padding), 0)
  \<close>
  \<open>n_padding\<close> is a Python int and may be negative; a list times a negative int is the
  empty list.
\<close>

definition pad_tensor :: "int \<Rightarrow> int list \<Rightarrow> int \<Rightarrow> int list" where
  "pad_tensor PADDING_INDEX tensor len =
     (let n_padding = len - int (length tensor);
          padding = replicate (nat n_padding) PADDING_INDEX
      in tensor @ padding)"

text \<open>
  \<^verbatim>\<open>
  def pad_batch(batch):
      lengths = [len(row) for row in batch]
      max_len = max(lengths)
      padded = [pad_tensor(row, max_len) for row in batch]
      return padded, lengths
  \<close>
  \<open>max\<close> of an empty list raises \<open>ValueError\<close>.
\<close>

fun py_max :: "int list \<Rightarrow> py_error + int" where
  "py_max [] = Inl ValueError"
| "py_max (x # xs) = Inr (fold max xs x)"

definition pad_batch :: "int \<Rightarrow> int list list \<Rightarrow> py_error + (int list list \<times> int list)" where
  "pad_batch PADDING_INDEX batch =
     (let lengths = map (\<lambda>row. int (length row)) batch
      in case py_max lengths of
           Inl e \<Rightarrow> Inl e
         | Inr max_len \<Rightarrow>
             Inr (map (\<lambda>row. pad_tensor PADDING_INDEX row max_len) batch, lengths))"

section \<open>lib/datasets/zero_to_zero.py\<close>

text \<open>
  Modelled from the spec: the class \<open>Dataset\<close> of \<open>lib/datasets/dataset.py\<close>, whose source
  is not part of the files at hand. The spec's data model has it as an ordered sequence of
  row mappings from string keys to values; \<open>Dataset(rows)\<close> wraps the list \<open>rows\<close>.
\<close>

datatype 'v dataset = Dataset (rows: "(string \<rightharpoonup> 'v) list")

text \<open>
  The function returns either one \<open>Dataset\<close> or a tuple of them; the two shapes of the
  result are the two constructors.
\<close>

datatype 'v datasets = Single "'v dataset" | Tuple "'v dataset list"

text \<open>\<open>range(n)\<close> is empty for a negative \<open>n\<close>.\<close>

definition py_range :: "int \<Rightarrow> int list" where
  "py_range n = map int [0..<nat n]"

text \<open>
  \<^verbatim>\<open>
  ret = []
  for is_requested, n_rows in [(train, train_rows), (dev, dev_rows), (test, test_rows)]:
      if not is_requested:
          continue
      rows = [{'source': str(0), 'target': str(0)} for i in range(n_rows)]
      ret.append(Dataset(rows))
  \<close>
  The loop is a recursion over the three pairs with \<open>ret\<close> threaded through;
  \<open>str(0)\<close> is the string \<open>''0''\<close>.
\<close>

fun zero_to_zero_loop :: "(bool \<times> int) list \<Rightarrow> string dataset list \<Rightarrow> string dataset list" where
  "zero_to_zero_loop [] ret = ret"
| "zero_to_zero_loop ((is_requested, n_rows) # rest) ret =
     (if \<not> is_requested then zero_to_zero_loop rest ret
      else let rows = map (\<lambda>i. [''source'' \<mapsto> ''0'', ''target'' \<mapsto> ''0'']) (py_range n_rows)
           in zero_to_zero_loop rest (ret @ [Dataset rows]))"

text \<open>
  \<^verbatim>\<open>
  if len(ret) == 1:
      return ret[0]
  else:
      return tuple(ret)
  \<close>
  \<open>seq_max_length\<close> is an argument the body never reads.
\<close>

definition zero_to_zero ::
  "bool \<Rightarrow> bool \<Rightarrow> bool \<Rightarrow> int \<Rightarrow> int \<Rightarrow> int \<Rightarrow> int \<Rightarrow> string datasets" where
  "zero_to_zero train dev test train_rows dev_rows test_rows seq_max_length =
     (let ret = zero_to_zero_loop [(train, train_rows), (dev, dev_rows), (test, test_rows)] []
      in if length ret = 1 then Single (ret ! 0) else Tuple ret)"

section \<open>Tensors\<close>

text \<open>
  A \<open>torch\<close> tensor is its shape and its contiguous row-major storage. The element type is
  a parameter: the theorems below use nothing of the arithmetic but the operations
  themselves, so they hold for whatever number type the tensors carry. A well-formed tensor
  stores as many elements as its shape says.
\<close>

record 'a tensor =
  shape :: "nat list"
  storage :: "'a list"

definition wf_tensor :: "'a tensor \<Rightarrow> bool" where
  "wf_tensor t = (length (storage t) = prod_list (shape t))"

text \<open>
  Seen as a matrix whose rows are the vectors along the last dimension, a tensor of shape
  \<open>[B, N, D]\<close> has the rows \<open>0 ..< B * N\<close>, and the vector at \<open>(b, i)\<close> is row
  \<open>b * N + i\<close>; for a tensor of shape \<open>[N, D]\<close> the vector at \<open>i\<close> is row \<open>i\<close>.
\<close>

definition row :: "'a tensor \<Rightarrow> nat \<Rightarrow> 'a list" where
  "row t r = (let d = last (shape t) in take d (drop (r * d) (storage t)))"

text \<open>
  The vector along the middle dimension of a tensor of shape \<open>[B, M, P]\<close>, at batch
  \<open>b\<close> and last index \<open>j\<close>.
\<close>

definition col :: "'a tensor \<Rightarrow> nat \<Rightarrow> nat \<Rightarrow> 'a list" where
  "col t b j =
     (let m = shape t ! 1; p = shape t ! 2
      in map (\<lambda>k. storage t ! ((b * m + k) * p + j)) [0..<m])"

definition from_rows :: "nat \<Rightarrow> (nat \<Rightarrow> 'a list) \<Rightarrow> 'a list" where
  "from_rows n f = concat (map f [0..<n])"

definition dot :: "'a::{zero,plus,times} list \<Rightarrow> 'a list \<Rightarrow> 'a" where
  "dot xs ys = foldl (+) 0 (map2 (*) xs ys)"

definition ebind :: "py_error + 'a \<Rightarrow> ('a \<Rightarrow> py_error + 'b) \<Rightarrow> py_error + 'b" where
  "ebind m f = (case m of Inl e \<Rightarrow> Inl e | Inr x \<Rightarrow> f x)"

text \<open>
  \<open>Tensor.view\<close>: the same storage under another shape with the same number of elements;
  anything else is a \<open>RuntimeError\<close>.
\<close>

definition view :: "'a tensor \<Rightarrow> nat list \<Rightarrow> py_error + 'a tensor" where
  "view t s =
     (if prod_list s = prod_list (shape t) then Inr \<lparr>shape = s, storage = storage t\<rparr>
      else Inl RuntimeError)"

text \<open>
  \<open>nn.Linear(in_features, out_features, bias=False)\<close> holds a weight of shape
  \<open>[out_features, in_features]\<close>; applied to a matrix \<open>x\<close> of shape \<open>[n, in_features]\<close> it
  gives \<open>x\<close> times the transposed weight, of shape \<open>[n, out_features]\<close>. The initial
  entries of the weight are drawn by the library; \<open>init\<close> stands for that draw.
\<close>

definition nn_Linear :: "(nat \<Rightarrow> 'a) \<Rightarrow> nat \<Rightarrow> nat \<Rightarrow> 'a tensor" where
  "nn_Linear init in_features out_features =
     \<lparr>shape = [out_features, in_features],
      storage = map init [0..<out_features * in_features]\<rparr>"

definition linear :: "'a::{zero,plus,times} tensor \<Rightarrow> 'a tensor \<Rightarrow> py_error + 'a tensor" where
  "linear W x =
     (case (shape W, shape x) of
        ([out_features, in_features], [n, d]) \<Rightarrow>
          if d = in_features
          then Inr \<lparr>shape = [n, out_features],
                    storage = from_rows n
                      (\<lambda>r. map (\<lambda>out. dot (row x r) (row W out)) [0..<out_features])\<rparr>
          else Inl RuntimeError
      | _ \<Rightarrow> Inl RuntimeError)"

text \<open>
  \<open>t.transpose(1, 2).contiguous()\<close> on a tensor of shape \<open>[B, M, P]\<close>: shape
  \<open>[B, P, M]\<close>, the entry at \<open>(b, j, k)\<close> being the entry of \<open>t\<close> at \<open>(b, k, j)\<close>.
\<close>

definition transpose_1_2 :: "'a tensor \<Rightarrow> py_error + 'a tensor" where
  "transpose_1_2 t =
     (case shape t of
        [b, m, p] \<Rightarrow>
          Inr \<lparr>shape = [b, p, m],
               storage = from_rows (b * p) (\<lambda>r. col t (r div p) (r mod p))\<rparr>
      | _ \<Rightarrow> Inl RuntimeError)"

text \<open>
  \<open>torch.bmm\<close>: the batch matrix product of \<open>[B, N, M]\<close> and \<open>[B, M, P]\<close>, of shape
  \<open>[B, N, P]\<close>; the entry at \<open>(b, i, j)\<close> is the dot product of row \<open>(b, i)\<close> of the
  first with column \<open>(b, j)\<close> of the second.
\<close>

definition bmm :: "'a::{zero,plus,times} tensor \<Rightarrow> 'a tensor \<Rightarrow> py_error + 'a tensor" where
  "bmm x y =
     (case (shape x, shape y) of
        ([b, n, m], [b', m', p]) \<Rightarrow>
          if b = b' \<and> m = m'
          then Inr \<lparr>shape = [b, n, p],
                    storage = from_rows (b * n)
                      (\<lambda>r. map (\<lambda>j. dot (row x r) (col y (r div n) j)) [0..<p])\<rparr>
          else Inl RuntimeError
      | _ \<Rightarrow> Inl RuntimeError)"

text \<open>
  \<open>scores.masked_fill_(mask, value)\<close> writes \<open>value\<close> wherever the mask of the same shape
  is set.
\<close>

definition masked_fill :: "'a tensor \<Rightarrow> bool tensor \<Rightarrow> 'a \<Rightarrow> py_error + 'a tensor" where
  "masked_fill t msk v =
     (if shape msk = shape t
      then Inr (t\<lparr>storage := map2 (\<lambda>x m. if m then v else x) (storage t) (storage msk)\<rparr>)
      else Inl RuntimeError)"

text \<open>
  \<open>torch.cat((x, y), dim=2)\<close> of \<open>[B, N, D1]\<close> and \<open>[B, N, D2]\<close>: shape
  \<open>[B, N, D1 + D2]\<close>, each vector of \<open>x\<close> followed by the vector of \<open>y\<close> at the same place.
\<close>

definition cat_dim2 :: "'a tensor \<Rightarrow> 'a tensor \<Rightarrow> py_error + 'a tensor" where
  "cat_dim2 x y =
     (case (shape x, shape y) of
        ([b, n, d1], [b', n', d2]) \<Rightarrow>
          if b = b' \<and> n = n'
          then Inr \<lparr>shape = [b, n, d1 + d2],
                    storage = from_rows (b * n) (\<lambda>r. row x r @ row y r)\<rparr>
          else Inl RuntimeError
      | _ \<Rightarrow> Inl RuntimeError)"

text \<open>
  The library's numeric primitives that the module calls: \<open>nn.Softmax()\<close> on one row
  of a matrix, \<open>nn.Tanh()\<close> on one entry, and the value \<open>-float('inf')\<close>.
\<close>

record 'a prims =
  prim_softmax :: "'a list \<Rightarrow> 'a list"
  prim_tanh :: "'a \<Rightarrow> 'a"
  prim_neg_inf :: "'a"

text \<open>\<open>nn.Softmax()\<close> on a matrix normalises each row (dimension 1).\<close>

definition softmax :: "'a prims \<Rightarrow> 'a tensor \<Rightarrow> py_error + 'a tensor" where
  "softmax p t =
     (case shape t of
        [n, m] \<Rightarrow> Inr (t\<lparr>storage := from_rows n (\<lambda>r. prim_softmax p (row t r))\<rparr>)
      | _ \<Rightarrow> Inl RuntimeError)"

section \<open>lib/nn/attention.py\<close>

text \<open>
  The module's state: the configured type, the two weight matrices (\<open>linear_in\<close> exists
  only when the type is \<open>general\<close>) and the optional mask.
\<close>

record 'a attention =
  attention_type :: string
  linear_in :: "'a tensor option"
  linear_out :: "'a tensor"
  mask :: "bool tensor option"

text \<open>
  \<^verbatim>\<open>
  def __init__(self, dimensions, mask=None, attention_type='general'):
      self.attention_type = attention_type
      assert (self.attention_type in ["dot", "general"]), "Invalid attention type selected."
      if self.attention_type == 'general':
          self.linear_in = nn.Linear(dimensions, dimensions, bias=False)
      self.linear_out = nn.Linear(dimensions * 2, dimensions, bias=False)
      self.softmax = nn.Softmax()
      self.tanh = nn.Tanh()
      self.mask = mask
  \<close>
  The constructor returns the new module or the exception it raises. \<open>init_in\<close> and
  \<open>init_out\<close> are the library's draws of the initial weights.
\<close>

definition Attention_init ::
  "(nat \<Rightarrow> 'a) \<Rightarrow> (nat \<Rightarrow> 'a) \<Rightarrow> nat \<Rightarrow> bool tensor option \<Rightarrow> string
     \<Rightarrow> py_error + 'a attention" where
  "Attention_init init_in init_out dimensions msk att_type =
     (if att_type \<notin> set [''dot'', ''general'']
      then Inl (AssertionError ''Invalid attention type selected.'')
      else Inr \<lparr>attention_type = att_type,
                linear_in = (if att_type = ''general''
                             then Some (nn_Linear init_in dimensions dimensions) else None),
                linear_out = nn_Linear init_out (dimensions * 2) dimensions,
                mask = msk\<rparr>)"

text \<open>
  \<^verbatim>\<open>
  if self.attention_type == "general":
      input_ = input_.view(batch_size * output_len, dimensions)
      input_ = self.linear_in(input_)
      input_ = input_.view(batch_size, output_len, dimensions)
  attention_scores = torch.bmm(input_, context.transpose(1, 2).contiguous())
  if self.mask is not None:
      attention_scores.data.masked_fill_(self.mask, -float('inf'))
  \<close>
  The first part of \<open>forward\<close>, up to the scores before normalisation. It returns the two
  locals the rest of \<open>forward\<close> reads: \<open>input_\<close> (written \<open>input\<close> here), which the \<open>general\<close> branch has
  reassigned, and \<open>attention_scores\<close>. A module whose type is \<open>general\<close> but which has no
  \<open>linear_in\<close> attribute raises \<open>AttributeError\<close>.
\<close>

definition forward_scores ::
  "'a::{zero,plus,times} prims \<Rightarrow> 'a attention \<Rightarrow> nat \<Rightarrow> nat \<Rightarrow> nat \<Rightarrow> 'a tensor \<Rightarrow> 'a tensor
     \<Rightarrow> py_error + ('a tensor \<times> 'a tensor)" where
  "forward_scores p self batch_size output_len dimensions input ctx =
     ebind (if attention_type self = ''general''
            then ebind (view input [batch_size * output_len, dimensions]) (\<lambda>input.
                 ebind (case linear_in self of
                          None \<Rightarrow> Inl (AttributeError ''linear_in'')
                        | Some W \<Rightarrow> linear W input) (\<lambda>input.
                 view input [batch_size, output_len, dimensions]))
            else Inr input) (\<lambda>input.
     ebind (transpose_1_2 ctx) (\<lambda>ctx_t.
     ebind (bmm input ctx_t) (\<lambda>attention_scores.
     ebind (case mask self of
              None \<Rightarrow> Inr attention_scores
            | Some m \<Rightarrow> masked_fill attention_scores m (prim_neg_inf p)) (\<lambda>attention_scores.
     Inr (input, attention_scores)))))"

text \<open>
  \<^verbatim>\<open>
  def forward(self, input_, context):
      batch_size, output_len, dimensions = input_.size()
      input_len = context.size(1)
      ...
      attention_scores = attention_scores.view(batch_size * output_len, input_len)
      attention_weights = self.softmax(attention_scores)
      attention_weights = attention_weights.view(batch_size, output_len, input_len)
      mix = torch.bmm(attention_weights, context)
      combined = torch.cat((mix, input_), dim=2)
      combined = combined.view(batch_size * output_len, 2 * dimensions)
      output = self.linear_out(combined).view(batch_size, output_len, dimensions)
      output = self.tanh(output)
      return output, attention_weights
  \<close>
  Unpacking the size of a tensor that is not three-dimensional raises \<open>ValueError\<close>;
  \<open>context.size(1)\<close> on a tensor of fewer than two dimensions raises \<open>IndexError\<close>.
\<close>

definition forward ::
  "'a::{zero,plus,times} prims \<Rightarrow> 'a attention \<Rightarrow> 'a tensor \<Rightarrow> 'a tensor
     \<Rightarrow> py_error + ('a tensor \<times> 'a tensor)" where
  "forward p self input ctx =
     (case shape input of
        [batch_size, output_len, dimensions] \<Rightarrow>
          (case shape ctx of
             _ # input_len # _ \<Rightarrow>
               ebind (forward_scores p self batch_size output_len dimensions input ctx)
                 (\<lambda>(input, attention_scores).
               ebind (view attention_scores [batch_size * output_len, input_len])
                 (\<lambda>attention_scores.
               ebind (softmax p attention_scores) (\<lambda>attention_weights.
               ebind (view attention_weights [batch_size, output_len, input_len])
                 (\<lambda>attention_weights.
               ebind (bmm attention_weights ctx) (\<lambda>mix.
               ebind (cat_dim2 mix input) (\<lambda>combined.
               ebind (view combined [batch_size * output_len, 2 * dimensions]) (\<lambda>combined.
               ebind (linear (linear_out self) combined) (\<lambda>out.
               ebind (view out [batch_size, output_len, dimensions]) (\<lambda>out.
               Inr (out\<lparr>storage := map (prim_tanh p) (storage out)\<rparr>,
                    attention_weights))))))))))
           | _ \<Rightarrow> Inl IndexError)
      | _ \<Rightarrow> Inl ValueError)"

subsection \<open>The vectors the claims speak of\<close>

text \<open>
  The input vector as the scores see it: under \<open>general\<close>, the vector times the transposed
  \<open>linear_in\<close> weight; under \<open>dot\<close>, the vector itself.
\<close>

definition projected :: "'a::{zero,plus,times} attention \<Rightarrow> 'a list \<Rightarrow> 'a list" where
  "projected self x =
     (if attention_type self = ''general''
      then (case linear_in self of
              Some W \<Rightarrow> map (\<lambda>out. dot x (row W out)) [0..<hd (shape W)]
            | None \<Rightarrow> x)
      else x)"

text \<open>Whether the module's mask is set at a position of the flattened scores.\<close>

definition masked_at :: "'a attention \<Rightarrow> nat \<Rightarrow> bool" where
  "masked_at self k = (case mask self of None \<Rightarrow> False | Some m \<Rightarrow> storage m ! k)"

text \<open>
  The mixture of the context vectors of batch \<open>b\<close> with the weights \<open>w\<close>: at feature
  \<open>k\<close>, the sum over the context positions \<open>j\<close> of \<open>w ! j\<close> times the context entry at
  \<open>(b, j, k)\<close>.
\<close>

definition mixture :: "'a::{zero,plus,times} list \<Rightarrow> 'a tensor \<Rightarrow> nat \<Rightarrow> 'a list" where
  "mixture w ctx b = map (\<lambda>k. dot w (col ctx b k)) [0..<shape ctx ! 2]"

text \<open>
  A vector sent through the \<open>linear_out\<close> projection and then \<open>tanh\<close>, entry by entry.
\<close>

definition projected_out :: "'a::{zero,plus,times} prims \<Rightarrow> 'a attention \<Rightarrow> 'a list \<Rightarrow> 'a list" where
  "projected_out p self v =
     map (prim_tanh p)
       (map (\<lambda>out. dot v (row (linear_out self) out)) [0..<hd (shape (linear_out self))])"

text \<open>
  The inputs the module is written for: \<open>input_\<close> of shape
  \<open>[batch_size, output_len, dimensions]\<close>, the context of shape
  \<open>[batch_size, input_len, dimensions]\<close>, a module constructed for \<open>dimensions\<close>, and a mask,
  when there is one, of the shape of the scores.
\<close>

definition well_shaped ::
  "'a attention \<Rightarrow> 'a tensor \<Rightarrow> 'a tensor \<Rightarrow> nat \<Rightarrow> nat \<Rightarrow> nat \<Rightarrow> nat \<Rightarrow> bool" where
  "well_shaped self input ctx batch_size output_len input_len dimensions =
     (shape input = [batch_size, output_len, dimensions] \<and> wf_tensor input
    \<and> shape ctx = [batch_size, input_len, dimensions] \<and> wf_tensor ctx
    \<and> (attention_type self = ''dot'' \<and> linear_in self = None
       \<or> attention_type self = ''general''
         \<and> (case linear_in self of
               None \<Rightarrow> False
             | Some W \<Rightarrow> shape W = [dimensions, dimensions] \<and> wf_tensor W))
    \<and> shape (linear_out self) = [dimensions, dimensions * 2] \<and> wf_tensor (linear_out self)
    \<and> (case mask self of
          None \<Rightarrow> True
        | Some m \<Rightarrow> shape m = [batch_size, output_len, input_len] \<and> wf_tensor m))"

text \<open>
  The primitives over the real numbers, for concrete runs: \<open>softmax\<close> of a row is each
  entry's exponential over the sum of the row's exponentials, and \<open>tanh\<close> is the hyperbolic
  tangent. The real numbers have no infinity; the fill value of the mask is an argument.
\<close>

definition real_softmax :: "real list \<Rightarrow> real list" where
  "real_softmax xs = map (\<lambda>x. exp x / sum_list (map exp xs)) xs"

definition real_prims :: "real \<Rightarrow> real prims" where
  "real_prims fill = \<lparr>prim_softmax = real_softmax, prim_tanh = tanh, prim_neg_inf = fill\<rparr>"

section \<open>lib/utils.py: resplitting two datasets\<close>

text \<open>
  \<^verbatim>\<open>
  def resplit_datasets(dataset, other_dataset, random_seed=None, cut=None):
      concat = dataset.rows + other_dataset.rows
      random.Random(random_seed).shuffle(concat)
      if cut is None:
          return Dataset(concat[:len(dataset)]), Dataset(concat[len(dataset):])
      else:
          cut = max(min(round(len(concat) * cut), len(concat)), 0)
          return Dataset(concat[:cut]), Dataset(concat[cut:])
  \<close>
  The standard library's generator is a parameter: \<open>Random s\<close> is the generator seeded
  with the integer \<open>s\<close>, and \<open>shuffle g xs\<close> the list \<open>xs\<close> as the generator \<open>g\<close> shuffles
  it. \<open>random.Random(None)\<close> seeds the generator from the operating system's entropy or
  the clock; \<open>entropy\<close> is the generator a call gets that way, a hidden input that differs
  from call to call. \<open>round_times n c\<close> is \<open>round(n * c)\<close> for the float \<open>c\<close>. The
  concatenation is a new list, so the shuffle leaves the rows of both arguments as they were.
  The argument \<open>cut\<close> is written \<open>cut_arg\<close>, and the local it becomes \<open>cut_at\<close>.
\<close>

definition resplit_datasets ::
  "(int \<Rightarrow> 'g) \<Rightarrow> ('g \<Rightarrow> (string \<rightharpoonup> 'v) list \<Rightarrow> (string \<rightharpoonup> 'v) list) \<Rightarrow> (nat \<Rightarrow> 'c \<Rightarrow> int)
     \<Rightarrow> 'g \<Rightarrow> 'v dataset \<Rightarrow> 'v dataset \<Rightarrow> int option \<Rightarrow> 'c option
     \<Rightarrow> 'v dataset \<times> 'v dataset" where
  "resplit_datasets Random shuffle round_times entropy dataset other_dataset random_seed cut_arg =
     (let both = rows dataset @ rows other_dataset;
          generator = (case random_seed of None \<Rightarrow> entropy | Some s \<Rightarrow> Random s);
          both = shuffle generator both
      in case cut_arg of
           None \<Rightarrow>
             (Dataset (take (length (rows dataset)) both),
              Dataset (drop (length (rows dataset)) both))
         | Some c \<Rightarrow>
             let cut_at = nat (max (min (round_times (length both) c) (int (length both))) 0)
             in (Dataset (take cut_at both), Dataset (drop cut_at both)))"

section \<open>scripts/python: the training script\<close>

subsection \<open>Encoding the datasets in place\<close>

text \<open>
  The rows of a dataset are dictionary objects that the encoding loop mutates, so they live
  in a store: a heap maps the address of a row to the row, and a dataset is the list of the
  addresses of its rows.
  \<^verbatim>\<open>
  for dataset in [train_dataset, dev_dataset]:
      for row in dataset:
          row['text'] = text_encoder.encode(row['text'])
          row['label'] = label_encoder.encode(row['label'])
  \<close>
  The two \<open>encode\<close> methods are parameters. Reading a key a row does not have raises
  \<open>KeyError\<close>.
\<close>

type_synonym 'v heap = "nat \<Rightarrow> (string \<rightharpoonup> 'v)"

fun encode_rows :: "('v \<Rightarrow> 'v) \<Rightarrow> ('v \<Rightarrow> 'v) \<Rightarrow> nat list \<Rightarrow> 'v heap \<Rightarrow> py_error + 'v heap" where
  "encode_rows text_encode label_encode [] h = Inr h"
| "encode_rows text_encode label_encode (a # as) h =
     (case h a ''text'' of
        None \<Rightarrow> Inl (KeyError ''text'')
      | Some t \<Rightarrow>
          let h = h(a := (h a)(''text'' \<mapsto> text_encode t))
          in case h a ''label'' of
               None \<Rightarrow> Inl (KeyError ''label'')
             | Some l \<Rightarrow>
                 let h = h(a := (h a)(''label'' \<mapsto> label_encode l))
                 in encode_rows text_encode label_encode as h)"

fun encode_datasets ::
  "('v \<Rightarrow> 'v) \<Rightarrow> ('v \<Rightarrow> 'v) \<Rightarrow> nat list list \<Rightarrow> 'v heap \<Rightarrow> py_error + 'v heap" where
  "encode_datasets text_encode label_encode [] h = Inr h"
| "encode_datasets text_encode label_encode (dataset # datasets) h =
     ebind (encode_rows text_encode label_encode dataset h)
       (encode_datasets text_encode label_encode datasets)"

text \<open>A row after the two assignments.\<close>

definition encoded_row :: "('v \<Rightarrow> 'v) \<Rightarrow> ('v \<Rightarrow> 'v) \<Rightarrow> (string \<rightharpoonup> 'v) \<Rightarrow> (string \<rightharpoonup> 'v)" where
  "encoded_row text_encode label_encode r =
     r(''text'' \<mapsto> text_encode (the (r ''text'')), ''label'' \<mapsto> label_encode (the (r ''label'')))"

subsection \<open>The training loop\<close>

text \<open>
  The loop's effects are calls into the library and into modules outside the files at hand
  (\<open>Optimizer\<close>, \<open>Checkpoint\<close>, \<open>DataLoader\<close>, the metrics). Each call is an event, and
  a run of the loop is the list of its events in the order of the calls. The events of one
  mini-batch carry the batch.
\<close>

datatype 'b event =
    LogEpoch int
  | ModelTrain bool
  | TrainIterator
  | DevIterator
  | PrepareBatch 'b
  | ZeroGrad
  | Forward 'b
  | Loss 'b
  | Backward
  | OptimizerStep
  | CheckpointSave
  | OptimizerUpdate int
  | LogLoss
  | GetAccuracy
  | GetBucketAccuracy
  | GetRandomSample
  | LogDone

text \<open>
  \<^verbatim>\<open>
  for batch in tqdm(train_iterator):
      text, text_lengths, label = prepare_batch(batch)
      optimizer.zero_grad()
      output = model(text, text_lengths)
      loss = criterion(output, label) / label.size()[0]
      loss.backward()
      optimizer.step()
  \<close>
\<close>

fun train_batches :: "'b list \<Rightarrow> 'b event list \<Rightarrow> 'b event list" where
  "train_batches [] trace = trace"
| "train_batches (batch # rest) trace =
     train_batches rest
       (trace @ [PrepareBatch batch, ZeroGrad, Forward batch, Loss batch, Backward,
                 OptimizerStep])"

text \<open>
  \<^verbatim>\<open>
  for batch in dev_iterator:
      text, text_lengths, label = prepare_batch(batch)
      output = model(text, text_lengths)
      total_loss += criterion(output, label).data[0]
      ...
  \<close>
\<close>

fun dev_batches :: "'b list \<Rightarrow> 'b event list \<Rightarrow> 'b event list" where
  "dev_batches [] trace = trace"
| "dev_batches (batch # rest) trace =
     dev_batches rest (trace @ [PrepareBatch batch, Forward batch, Loss batch])"

text \<open>
  One pass of the body of \<open>for epoch in range(epochs)\<close>. \<open>train_iterator epoch\<close> is the
  list of mini-batches the bucket sampler and the \<open>DataLoader\<close> yield in that epoch,
  \<open>dev_iterator\<close> the batches of the development split, and \<open>len_dev_dataset\<close> is
  \<open>len(dev_dataset)\<close>. After the batches of the development split the script computes
  \<^verbatim>\<open>
  optimizer.update(total_loss / len(dev_dataset), epoch)
  \<close>
  and the division raises \<open>ZeroDivisionError\<close> when the development split is empty. A run
  is the list of its events together with the exception that ended it, if one did.
\<close>

definition train_epoch ::
  "(int \<Rightarrow> 'b list) \<Rightarrow> 'b list \<Rightarrow> nat \<Rightarrow> int \<Rightarrow> 'b event list
     \<Rightarrow> 'b event list \<times> py_error option" where
  "train_epoch train_iterator dev_iterator len_dev_dataset epoch trace =
     (let trace = trace @ [LogEpoch epoch, ModelTrain True, TrainIterator];
          trace = train_batches (train_iterator epoch) trace;
          trace = trace @ [CheckpointSave];
          trace = trace @ [ModelTrain False, DevIterator];
          trace = dev_batches dev_iterator trace
      in if len_dev_dataset = 0 then (trace, Some ZeroDivisionError)
         else (trace @ [OptimizerUpdate epoch, LogLoss, GetAccuracy, GetBucketAccuracy,
                        GetRandomSample], None))"

text \<open>The loop over the epochs stops at the first exception.\<close>

fun train_epochs ::
  "(int \<Rightarrow> 'b list) \<Rightarrow> 'b list \<Rightarrow> nat \<Rightarrow> int list \<Rightarrow> 'b event list
     \<Rightarrow> 'b event list \<times> py_error option" where
  "train_epochs train_iterator dev_iterator len_dev_dataset [] trace = (trace, None)"
| "train_epochs train_iterator dev_iterator len_dev_dataset (epoch # rest) trace =
     (case train_epoch train_iterator dev_iterator len_dev_dataset epoch trace of
        (trace, Some e) \<Rightarrow> (trace, Some e)
      | (trace, None) \<Rightarrow> train_epochs train_iterator dev_iterator len_dev_dataset rest trace)"

text \<open>
  \<^verbatim>\<open>
  for epoch in range(epochs):
      ...
  logger.info('Training done!')
  \<close>
\<close>

definition train_loop ::
  "(int \<Rightarrow> 'b list) \<Rightarrow> 'b list \<Rightarrow> nat \<Rightarrow> int \<Rightarrow> 'b event list \<times> py_error option" where
  "train_loop train_iterator dev_iterator len_dev_dataset epochs =
     (case train_epochs train_iterator dev_iterator len_dev_dataset (py_range epochs) [] of
        (trace, Some e) \<Rightarrow> (trace, Some e)
      | (trace, None) \<Rightarrow> (trace @ [LogDone], None))"

text \<open>
  The events of one training mini-batch, of the training part of an epoch, of the batches of
  the evaluation on the development split, and of the whole evaluation, as the claim lists
  them.
\<close>

definition batch_events :: "'b \<Rightarrow> 'b event list" where
  "batch_events batch =
     [PrepareBatch batch, ZeroGrad, Forward batch, Loss batch, Backward, OptimizerStep]"

definition training_events :: "(int \<Rightarrow> 'b list) \<Rightarrow> int \<Rightarrow> 'b event list" where
  "training_events train_iterator epoch =
     [LogEpoch epoch, ModelTrain True, TrainIterator]
     @ concat (map batch_events (train_iterator epoch))"

definition evaluation_batches :: "'b list \<Rightarrow> 'b event list" where
  "evaluation_batches dev_iterator =
     [ModelTrain False, DevIterator]
     @ concat (map (\<lambda>batch. [PrepareBatch batch, Forward batch, Loss batch]) dev_iterator)"

definition evaluation_events :: "'b list \<Rightarrow> int \<Rightarrow> 'b event list" where
  "evaluation_events dev_iterator epoch =
     evaluation_batches dev_iterator
     @ [OptimizerUpdate epoch, LogLoss, GetAccuracy, GetBucketAccuracy, GetRandomSample]"

subsection \<open>The command line\<close>

text \<open>
  The file system is the directories and the regular files that exist, each under its
  normal spelling. \<open>os.path.dirname\<close> (POSIX) cuts the path after its last slash and strips
  the slashes the head ends with, unless the head is slashes only:
  \<^verbatim>\<open>
  i = p.rfind('/') + 1
  head = p[:i]
  if head and head != '/' * len(head):
      head = head.rstrip('/')
  return head
  \<close>
\<close>

record file_system =
  dirs :: "string set"
  files :: "string set"

definition os_path_dirname :: "string \<Rightarrow> string" where
  "os_path_dirname p =
     (let head = rev (dropWhile (\<lambda>c. c \<noteq> CHR ''/'') (rev p))
      in if head \<noteq> [] \<and> head \<noteq> replicate (length head) (CHR ''/'')
         then rev (dropWhile (\<lambda>c. c = CHR ''/'') (rev head))
         else head)"

text \<open>
  Two spellings name the same entry when they differ only in repeated slashes or in a slash
  at the end: the normal spelling has every run of slashes collapsed to one and no final
  slash (the root apart). The components \<open>.\<close> and \<open>..\<close>, symbolic links, and a relative
  against an absolute spelling are not resolved.
\<close>

fun collapse_slashes :: "string \<Rightarrow> string" where
  "collapse_slashes (a # b # cs) =
     (if a = CHR ''/'' \<and> b = CHR ''/'' then collapse_slashes (b # cs)
      else a # collapse_slashes (b # cs))"
| "collapse_slashes cs = cs"

definition norm_path :: "string \<Rightarrow> string" where
  "norm_path p =
     (let q = collapse_slashes p
      in if q \<noteq> [] \<and> q \<noteq> ''/'' \<and> last q = CHR ''/'' then butlast q else q)"

text \<open>The paths above a path: its prefixes up to each of its slashes but the first character.\<close>

definition ancestors :: "string \<Rightarrow> string set" where
  "ancestors name = set (map (\<lambda>i. take i name) (filter (\<lambda>i. name ! i = CHR ''/'') [1..<length name]))"

text \<open>
  \<open>os.makedirs(name)\<close>, with \<open>exist_ok\<close> left at \<open>False\<close>: \<open>FileNotFoundError\<close> for the
  empty path, \<open>FileExistsError\<close> (carrying \<open>name\<close> as it was passed) when the path exists,
  as a directory or as a file, \<open>NotADirectoryError\<close> when a path above it is a regular
  file; otherwise the directory and the directories above it come to exist.
\<close>

definition os_makedirs :: "file_system \<Rightarrow> string \<Rightarrow> py_error + file_system" where
  "os_makedirs fs name =
     (if name = [] then Inl (FileNotFoundError name)
      else let p = norm_path name
           in if p \<in> dirs fs \<union> files fs then Inl (FileExistsError name)
              else if ancestors p \<inter> files fs \<noteq> {} then Inl NotADirectoryError
              else Inr (fs\<lparr>dirs := insert p (ancestors p \<union> dirs fs)\<rparr>))"

text \<open>
  \<^verbatim>\<open>
  parser.add_argument('--checkpoint_path', type=str, default=None,
                      help="Path to checkpoint to resume training.")
  args = parser.parse_args()
  save_directory = os.path.dirname(
      args.checkpoint_path) if args.checkpoint_path else DEFAULT_SAVE_DIRECTORY
  os.makedirs(save_directory)
  train(checkpoint_path=args.checkpoint_path, save_directory=save_directory)
  \<close>
  \<open>checkpoint_path\<close> is \<open>args.checkpoint_path\<close>: \<open>None\<close> when the option is absent, the
  string that follows it otherwise. A string is true when it is not empty. \<open>train\<close> is the
  function of the same name, run on the file system that \<open>os.makedirs\<close> leaves.
\<close>

definition main ::
  "file_system \<Rightarrow> string option \<Rightarrow> string
     \<Rightarrow> (file_system \<Rightarrow> string option \<Rightarrow> string \<Rightarrow> py_error + 'r) \<Rightarrow> py_error + 'r" where
  "main fs checkpoint_path DEFAULT_SAVE_DIRECTORY train =
     (let save_directory =
            (case checkpoint_path of
               None \<Rightarrow> DEFAULT_SAVE_DIRECTORY
             | Some p \<Rightarrow> if p \<noteq> [] then os_path_dirname p else DEFAULT_SAVE_DIRECTORY)
      in ebind (os_makedirs fs save_directory)
           (\<lambda>fs. train fs checkpoint_path save_directory))"

subsection \<open>Facts about padding\<close>

lemma fold_max_ge_init: "(a::int) \<le> fold max xs a"
  by (induction xs arbitrary: a) (auto intro: order_trans [OF max.cobounded2])

lemma fold_max_ge_elem: "x \<in> set xs \<Longrightarrow> (x::int) \<le> fold max xs a"
proof (induction xs arbitrary: a)
  case Nil
  then show ?case by simp
next
  case (Cons y ys)
  show ?case
  proof (cases "x = y")
    case True
    have "y \<le> max y a" by simp
    also have "\<dots> \<le> fold max ys (max y a)" by (rule fold_max_ge_init)
    finally show ?thesis using True by simp
  next
    case False
    with Cons.prems have "x \<in> set ys" by simp
    then show ?thesis using Cons.IH by simp
  qed
qed

lemma fold_max_mem: "fold max xs (a::int) \<in> insert a (set xs)"
proof (induction xs arbitrary: a)
  case Nil
  show ?case by simp
next
  case (Cons y ys)
  have "fold max ys (max y a) \<in> insert (max y a) (set ys)" by (rule Cons.IH)
  moreover have "max y a = y \<or> max y a = a" by (simp add: max_def)
  ultimately show ?case by auto
qed

lemma fold_max_eq_Max: "fold max xs (a::int) = Max (insert a (set xs))"
proof (rule sym, rule Max_eqI)
  show "finite (insert a (set xs))" by simp
  show "y \<le> fold max xs a" if "y \<in> insert a (set xs)" for y
    using that fold_max_ge_init [of a xs] fold_max_ge_elem [of y xs a] by auto
  show "fold max xs a \<in> insert a (set xs)" by (rule fold_max_mem)
qed

lemma py_max_eq_Max: "xs \<noteq> [] \<Longrightarrow> py_max xs = Inr (Max (set xs))"
  by (cases xs) (simp_all add: fold_max_eq_Max)

lemma pad_tensor_length:
  "int (length tensor) \<le> len \<Longrightarrow> int (length (pad_tensor PADDING_INDEX tensor len)) = len"
  by (simp add: pad_tensor_def)

text \<open>
  C5. For every non-empty batch, \<open>pad_batch\<close> returns (it does not raise) the pair of the
  padded tensors and the original lengths in input order. The maximum length is the largest
  original length; every tensor's original length is at most it, and the tensor at each
  position is the original one followed by \<open>PADDING_INDEX\<close> entries, exactly as many as
  bring it to the maximum length.
\<close>

theorem pad_batch_pads_to_max:
  assumes "batch \<noteq> []"
  shows "\<exists>padded lengths max_len.
           pad_batch PADDING_INDEX batch = Inr (padded, lengths)
         \<and> lengths = map (\<lambda>row. int (length row)) batch
         \<and> max_len = Max (set lengths)
         \<and> length padded = length batch
         \<and> (\<forall>i < length batch.
               int (length (batch ! i)) \<le> max_len
             \<and> padded ! i =
                 batch ! i @ replicate (nat (max_len - int (length (batch ! i)))) PADDING_INDEX
             \<and> int (length (padded ! i)) = max_len)"
proof -
  let ?lengths = "map (\<lambda>row. int (length row)) batch"
  let ?m = "Max (set ?lengths)"
  from assms have ne: "?lengths \<noteq> []" by simp
  have mx: "py_max ?lengths = Inr ?m" by (rule py_max_eq_Max [OF ne])
  have res: "pad_batch PADDING_INDEX batch =
      Inr (map (\<lambda>row. pad_tensor PADDING_INDEX row ?m) batch, ?lengths)"
    unfolding pad_batch_def Let_def mx by simp
  have le: "int (length (batch ! i)) \<le> ?m" if "i < length batch" for i
  proof -
    from that have "int (length (batch ! i)) \<in> set ?lengths" by force
    then show ?thesis by (intro Max_ge) auto
  qed
  have each: "int (length (batch ! i)) \<le> ?m
      \<and> map (\<lambda>row. pad_tensor PADDING_INDEX row ?m) batch ! i =
          batch ! i @ replicate (nat (?m - int (length (batch ! i)))) PADDING_INDEX
      \<and> int (length (map (\<lambda>row. pad_tensor PADDING_INDEX row ?m) batch ! i)) = ?m"
    if "i < length batch" for i
    using that le [OF that] pad_tensor_length [OF le [OF that], of PADDING_INDEX]
    by (simp add: pad_tensor_def)
  let ?padded = "map (\<lambda>row. pad_tensor PADDING_INDEX row ?m) batch"
  have all: "\<forall>i < length batch.
        int (length (batch ! i)) \<le> ?m
      \<and> ?padded ! i =
          batch ! i @ replicate (nat (?m - int (length (batch ! i)))) PADDING_INDEX
      \<and> int (length (?padded ! i)) = ?m"
    using each by blast
  have "pad_batch PADDING_INDEX batch = Inr (?padded, ?lengths)
      \<and> ?lengths = map (\<lambda>row. int (length row)) batch
      \<and> ?m = Max (set ?lengths)
      \<and> length ?padded = length batch
      \<and> (\<forall>i < length batch.
            int (length (batch ! i)) \<le> ?m
          \<and> ?padded ! i =
              batch ! i @ replicate (nat (?m - int (length (batch ! i)))) PADDING_INDEX
          \<and> int (length (?padded ! i)) = ?m)"
    using res all by (intro conjI) (rule refl | simp only: length_map | assumption)+
  then show ?thesis by blast
qed

theorem pad_batch_pads_to_max_witness:
  "[[1, 2, 3], [4], []] \<noteq> ([] :: int list list)
   \<and> pad_batch 0 [[1, 2, 3], [4], []] = Inr ([[1, 2, 3], [4, 0, 0], [0, 0, 0]], [3, 1, 0])"
  using pad_batch_pads_to_max [of "[[1, 2, 3], [4], []]" 0]
  by (simp add: pad_batch_def pad_tensor_def eval_nat_numeral)

subsection \<open>Facts about tensors\<close>

lemma from_rows_Suc: "from_rows (Suc n) f = from_rows n f @ f n"
  by (simp add: from_rows_def)

lemma from_rows_length:
  "(\<And>r. r < n \<Longrightarrow> length (f r) = m) \<Longrightarrow> length (from_rows n f) = n * m"
  by (induction n) (simp_all add: from_rows_Suc from_rows_def)

lemma from_rows_take_drop:
  assumes "\<And>r. r < n \<Longrightarrow> length (f r) = m" and "r < n"
  shows "take m (drop (r * m) (from_rows n f)) = f r"
  using assms
proof (induction n)
  case 0
  then show ?case by simp
next
  case (Suc n)
  have len: "length (from_rows n f) = n * m"
    by (rule from_rows_length) (simp add: Suc.prems(1))
  show ?case
  proof (cases "r < n")
    case True
    then have "Suc r \<le> n" by simp
    then have "Suc r * m \<le> n * m" by (rule mult_le_mono1)
    then have le: "r * m + m \<le> n * m" by simp
    have "take m (drop (r * m) (from_rows n f)) = f r"
      using Suc.IH [OF _ True] Suc.prems(1) by simp
    then show ?thesis using le len by (simp add: from_rows_Suc)
  next
    case False
    with Suc.prems(2) have "r = n" by simp
    then show ?thesis using len Suc.prems(1) [of n] by (simp add: from_rows_Suc)
  qed
qed

lemma from_rows_nth:
  assumes "\<And>r. r < n \<Longrightarrow> length (f r) = m" and "r < n" and "j < m"
  shows "from_rows n f ! (r * m + j) = f r ! j"
proof -
  have len: "length (from_rows n f) = n * m" by (rule from_rows_length) (rule assms(1))
  from assms(2) have "Suc r \<le> n" by simp
  then have "Suc r * m \<le> n * m" by (rule mult_le_mono1)
  then have le: "r * m + m \<le> n * m" by simp
  have "f r ! j = take m (drop (r * m) (from_rows n f)) ! j"
    by (simp only: from_rows_take_drop [of n f m r, OF assms(1) assms(2)])
  also have "\<dots> = from_rows n f ! (r * m + j)"
  proof -
    have "r * m \<le> length (from_rows n f)" using assms(2) len by simp
    then show ?thesis using assms(3) by (simp add: nth_drop)
  qed
  finally show ?thesis by simp
qed

lemma row_eq_map:
  assumes "last (shape t) = d" and "r * d + d \<le> length (storage t)"
  shows "row t r = map (\<lambda>k. storage t ! (r * d + k)) [0..<d]"
proof (rule nth_equalityI)
  show "length (row t r) = length (map (\<lambda>k. storage t ! (r * d + k)) [0..<d])"
    using assms by (simp add: row_def)
  show "row t r ! i = map (\<lambda>k. storage t ! (r * d + k)) [0..<d] ! i" if "i < length (row t r)" for i
    using that assms by (simp add: row_def)
qed

lemma row_length:
  assumes "last (shape t) = d" and "r * d + d \<le> length (storage t)"
  shows "length (row t r) = d"
  using assms by (simp add: row_def)

lemma row_from_rows:
  assumes "last s = m" and "\<And>r. r < n \<Longrightarrow> length (f r) = m" and "r < n"
  shows "row \<lparr>shape = s, storage = from_rows n f\<rparr> r = f r"
  using from_rows_take_drop [of n f m r, OF assms(2) assms(3)] assms(1)
  by (simp add: row_def)

lemma idx_bound: "b < B \<Longrightarrow> i < (N::nat) \<Longrightarrow> b * N + i < B * N"
proof -
  assume "b < B" "i < N"
  then have "b * N + i < b * N + N" by simp
  also have "\<dots> = Suc b * N" by simp
  also have "\<dots> \<le> B * N" using \<open>b < B\<close> by (intro mult_le_mono1) simp
  finally show ?thesis .
qed

lemma from_rows_cong:
  assumes "\<And>r. r < n \<Longrightarrow> f r = g r"
  shows "from_rows n f = from_rows n g"
proof -
  have "map f [0..<n] = map g [0..<n]"
    by (rule map_cong [OF refl]) (simp add: assms)
  then show ?thesis by (simp only: from_rows_def)
qed

lemma idx_bound_le: "b < B \<Longrightarrow> b * (N::nat) + N \<le> B * N"
proof -
  assume "b < B"
  then have "Suc b \<le> B" by simp
  then have "Suc b * N \<le> B * N" by (rule mult_le_mono1)
  then show ?thesis by simp
qed

lemma col_length: "length (col t b j) = shape t ! 1"
  by (simp add: col_def Let_def)

lemma col_nth: "k < shape t ! 1 \<Longrightarrow> col t b j ! k = storage t ! ((b * (shape t ! 1) + k) * (shape t ! 2) + j)"
  by (simp add: col_def Let_def)

lemma wf_3d: "wf_tensor t \<Longrightarrow> shape t = [B, N, D] \<Longrightarrow> length (storage t) = B * N * D"
  by (simp add: wf_tensor_def)

lemma row_3d:
  assumes "wf_tensor t" and "shape t = [B, N, D]" and "r < B * N"
  shows "row t r = map (\<lambda>k. storage t ! (r * D + k)) [0..<D]" and "length (row t r) = D"
proof -
  have len: "length (storage t) = B * N * D" by (rule wf_3d [OF assms(1,2)])
  have "r * D + D \<le> (B * N) * D" by (rule idx_bound_le [OF assms(3)])
  then have le: "r * D + D \<le> length (storage t)" using len by simp
  have l: "last (shape t) = D" using assms(2) by simp
  show "row t r = map (\<lambda>k. storage t ! (r * D + k)) [0..<D]" by (rule row_eq_map [OF l le])
  show "length (row t r) = D" by (rule row_length [OF l le])
qed

lemma col_transposed:
  assumes wf: "wf_tensor ctx" and sh: "shape ctx = [B, I, D]" and b: "b < B" and j: "j < I"
  shows "col \<lparr>shape = [B, D, I],
              storage = from_rows (B * D) (\<lambda>r. col ctx (r div D) (r mod D))\<rparr> b j
         = row ctx (b * I + j)"
proof -
  let ?g = "\<lambda>r. col ctx (r div D) (r mod D)"
  have glen: "length (?g r) = I" for r using sh by (simp add: col_length)
  have r: "b * I + j < B * I" by (rule idx_bound [OF b j])
  have "col \<lparr>shape = [B, D, I], storage = from_rows (B * D) ?g\<rparr> b j
      = map (\<lambda>k. from_rows (B * D) ?g ! ((b * D + k) * I + j)) [0..<D]"
    by (simp add: col_def)
  also have "\<dots> = map (\<lambda>k. storage ctx ! ((b * I + j) * D + k)) [0..<D]"
  proof (rule map_cong [OF refl])
    fix k assume "k \<in> set [0..<D]"
    then have k: "k < D" by simp
    have bk: "b * D + k < B * D" by (rule idx_bound [OF b k])
    have "from_rows (B * D) ?g ! ((b * D + k) * I + j) = ?g (b * D + k) ! j"
      by (rule from_rows_nth [OF glen bk j])
    also have "\<dots> = col ctx b k ! j" using k by simp
    also have "\<dots> = storage ctx ! ((b * I + j) * D + k)"
      using j sh by (simp add: col_nth)
    finally show "from_rows (B * D) ?g ! ((b * D + k) * I + j)
        = storage ctx ! ((b * I + j) * D + k)" .
  qed
  also have "\<dots> = row ctx (b * I + j)"
    by (rule row_3d(1) [OF wf sh r, symmetric])
  finally show ?thesis .
qed

lemma div_less_rows: "r < B * (N::nat) \<Longrightarrow> r div N < B"
  by (simp add: less_mult_imp_div_less)

lemma scores_step:
  assumes wf: "wf_tensor ctx" and sh: "shape ctx = [B, I, D]" and shx: "shape x = [B, N, D]"
  shows "ebind (transpose_1_2 ctx) (bmm x)
       = Inr \<lparr>shape = [B, N, I],
              storage = from_rows (B * N)
                (\<lambda>r. map (\<lambda>j. dot (row x r) (row ctx ((r div N) * I + j))) [0..<I])\<rparr>"
proof -
  let ?ct = "\<lparr>shape = [B, D, I], storage = from_rows (B * D) (\<lambda>r. col ctx (r div D) (r mod D))\<rparr>"
  have t: "transpose_1_2 ctx = Inr ?ct" using sh by (simp add: transpose_1_2_def)
  have "from_rows (B * N) (\<lambda>r. map (\<lambda>j. dot (row x r) (col ?ct (r div N) j)) [0..<I])
      = from_rows (B * N) (\<lambda>r. map (\<lambda>j. dot (row x r) (row ctx ((r div N) * I + j))) [0..<I])"
  proof (rule from_rows_cong)
    fix r assume r: "r < B * N"
    have b: "r div N < B" by (rule div_less_rows [OF r])
    show "map (\<lambda>j. dot (row x r) (col ?ct (r div N) j)) [0..<I]
        = map (\<lambda>j. dot (row x r) (row ctx ((r div N) * I + j))) [0..<I]"
    proof (rule map_cong [OF refl])
      fix j assume "j \<in> set [0..<I]"
      then have j: "j < I" by simp
      show "dot (row x r) (col ?ct (r div N) j) = dot (row x r) (row ctx ((r div N) * I + j))"
        by (simp only: col_transposed [OF wf sh b j])
    qed
  qed
  then show ?thesis
    using shx by (simp add: t ebind_def bmm_def)
qed

lemma view_2d:
  "shape t = [B, N, D] \<Longrightarrow> view t [B * N, D] = Inr \<lparr>shape = [B * N, D], storage = storage t\<rparr>"
  by (simp add: view_def mult.assoc)

lemma view_3d:
  "shape t = [B * N, D] \<Longrightarrow> view t [B, N, D] = Inr \<lparr>shape = [B, N, D], storage = storage t\<rparr>"
  by (simp add: view_def mult.assoc)

lemma row_reshaped:
  "last s = last (shape t) \<Longrightarrow> row \<lparr>shape = s, storage = storage t\<rparr> r = row t r"
  by (simp add: row_def)

lemma project_step:
  assumes ws: "well_shaped self input ctx B N I D"
  shows "\<exists>input2.
      (if attention_type self = ''general''
       then ebind (view input [B * N, D]) (\<lambda>input.
            ebind (case linear_in self of
                     None \<Rightarrow> Inl (AttributeError ''linear_in'')
                   | Some W \<Rightarrow> linear W input) (\<lambda>input.
            view input [B, N, D]))
       else Inr input) = Inr input2
    \<and> shape input2 = [B, N, D] \<and> wf_tensor input2
    \<and> (\<forall>r < B * N. row input2 r = projected self (row input r))"
proof (cases "attention_type self = ''general''")
  case False
  then show ?thesis using ws by (auto simp: well_shaped_def projected_def)
next
  case True
  with ws obtain W where W: "linear_in self = Some W" "shape W = [D, D]"
    by (auto simp: well_shaped_def split: option.splits)
  from ws have sh: "shape input = [B, N, D]" by (simp add: well_shaped_def)
  let ?f = "\<lambda>r. map (\<lambda>out. dot (row input r) (row W out)) [0..<D]"
  let ?x = "\<lparr>shape = [B * N, D], storage = storage input\<rparr>"
  let ?y = "\<lparr>shape = [B, N, D], storage = from_rows (B * N) ?f\<rparr>"
  have rx: "row ?x r = row input r" for r
    by (rule row_reshaped) (simp add: sh)
  have lin: "linear W ?x = Inr \<lparr>shape = [B * N, D], storage = from_rows (B * N) ?f\<rparr>"
    using W(2) by (simp add: linear_def rx)
  have run: "ebind (view input [B * N, D]) (\<lambda>input.
            ebind (case linear_in self of
                     None \<Rightarrow> Inl (AttributeError ''linear_in'')
                   | Some W \<Rightarrow> linear W input) (\<lambda>input.
            view input [B, N, D])) = Inr ?y"
    by (simp add: view_2d [OF sh] ebind_def W(1) lin view_3d)
  have flen: "length (?f r) = D" for r by simp
  have wf: "wf_tensor ?y"
    using from_rows_length [of "B * N" ?f D, OF flen] by (simp add: wf_tensor_def)
  have rows: "row ?y r = projected self (row input r)" if "r < B * N" for r
  proof -
    have "row ?y r = ?f r"
      by (rule row_from_rows [OF _ flen that]) simp
    also have "\<dots> = projected self (row input r)"
      using True W by (simp add: projected_def)
    finally show ?thesis .
  qed
  show ?thesis
    using True run wf rows by (intro exI [of _ ?y]) simp
qed

lemma forward_scores_run:
  assumes ws: "well_shaped self input ctx B N I D"
  shows "\<exists>input2 scores.
      forward_scores p self B N D input ctx = Inr (input2, scores)
    \<and> shape input2 = [B, N, D] \<and> wf_tensor input2
    \<and> (\<forall>r < B * N. row input2 r = projected self (row input r))
    \<and> shape scores = [B, N, I] \<and> wf_tensor scores
    \<and> (\<forall>r < B * N. \<forall>j < I.
          storage scores ! (r * I + j) =
            (if masked_at self (r * I + j) then prim_neg_inf p
             else dot (row input2 r) (row ctx ((r div N) * I + j))))"
proof -
  from project_step [OF ws] obtain input2 where
    proj: "(if attention_type self = ''general''
       then ebind (view input [B * N, D]) (\<lambda>input.
            ebind (case linear_in self of
                     None \<Rightarrow> Inl (AttributeError ''linear_in'')
                   | Some W \<Rightarrow> linear W input) (\<lambda>input.
            view input [B, N, D]))
       else Inr input) = Inr input2"
    and sh2: "shape input2 = [B, N, D]" and wf2: "wf_tensor input2"
    and rows2: "\<forall>r < B * N. row input2 r = projected self (row input r)"
    by blast
  from ws have wfc: "wf_tensor ctx" and shc: "shape ctx = [B, I, D]"
    by (simp_all add: well_shaped_def)
  let ?f = "\<lambda>r. map (\<lambda>j. dot (row input2 r) (row ctx ((r div N) * I + j))) [0..<I]"
  let ?sc = "\<lparr>shape = [B, N, I], storage = from_rows (B * N) ?f\<rparr>"
  have step: "ebind (transpose_1_2 ctx) (bmm input2) = Inr ?sc"
    by (rule scores_step [OF wfc shc sh2])
  have flen: "length (?f r) = I" for r by simp
  have len: "length (from_rows (B * N) ?f) = B * N * I"
    by (rule from_rows_length) simp
  have nth: "from_rows (B * N) ?f ! (r * I + j) = dot (row input2 r) (row ctx ((r div N) * I + j))"
    if "r < B * N" "j < I" for r j
    using from_rows_nth [of "B * N" ?f I r j, OF flen that] that(2) by simp
  have bound: "r * I + j < B * N * I" if "r < B * N" "j < I" for r j
    by (rule idx_bound [OF that])
  show ?thesis
  proof (cases "mask self")
    case None
    have run: "forward_scores p self B N D input ctx = Inr (input2, ?sc)"
      unfolding forward_scores_def proj
      using step by (auto simp: ebind_def None split: sum.splits)
    have wf: "wf_tensor ?sc" using len by (simp add: wf_tensor_def mult.assoc)
    have ent: "\<forall>r < B * N. \<forall>j < I. storage ?sc ! (r * I + j) =
        (if masked_at self (r * I + j) then prim_neg_inf p
         else dot (row input2 r) (row ctx ((r div N) * I + j)))"
      using nth by (simp add: masked_at_def None)
    show ?thesis
      using run sh2 wf2 rows2 wf ent by (intro exI [of _ input2] exI [of _ ?sc]) simp
  next
    case (Some m)
    with ws have shm: "shape m = [B, N, I]" and wfm: "wf_tensor m"
      by (simp_all add: well_shaped_def)
    have lenm: "length (storage m) = B * N * I" by (rule wf_3d [OF wfm shm])
    let ?st = "map2 (\<lambda>x m. if m then prim_neg_inf p else x) (from_rows (B * N) ?f) (storage m)"
    let ?ms = "\<lparr>shape = [B, N, I], storage = ?st\<rparr>"
    have fill: "masked_fill ?sc m (prim_neg_inf p) = Inr ?ms"
      by (simp add: masked_fill_def shm)
    have run: "forward_scores p self B N D input ctx = Inr (input2, ?ms)"
      unfolding forward_scores_def proj
      using step fill by (auto simp: ebind_def Some split: sum.splits)
    have wf: "wf_tensor ?ms" using len lenm by (simp add: wf_tensor_def mult.assoc)
    have ent: "storage ?ms ! (r * I + j) =
        (if masked_at self (r * I + j) then prim_neg_inf p
         else dot (row input2 r) (row ctx ((r div N) * I + j)))"
      if "r < B * N" "j < I" for r j
      using bound [OF that] nth [OF that] len lenm by (simp add: masked_at_def Some)
    show ?thesis
      using run sh2 wf2 rows2 wf ent by (intro exI [of _ input2] exI [of _ ?ms]) simp
  qed
qed

lemma upt_2: "[0..<2] = [0, 1]"
  by (simp add: upt_rec)

lemma upt_1: "[0..<1] = [0]"
  by (simp add: upt_rec)

lemmas run_simps =
  forward_scores_def ebind_def view_def linear_def transpose_1_2_def bmm_def
  from_rows_def row_def col_def dot_def upt_2 upt_1 real_prims_def

text \<open>
  C1. For every \<open>input_\<close> of shape \<open>[B, N, D]\<close> and context of shape \<open>[B, I, D]\<close>, the
  first part of \<open>forward\<close> returns, and the score before normalisation at
  \<open>(b, i, j)\<close> is the dot product of the input vector at \<open>(b, i)\<close>, sent through
  \<open>linear_in\<close> first when the type is \<open>general\<close>, with the context vector at \<open>(b, j)\<close>;
  where the module's mask is set the score is the fill value instead. The dot product is
  not scaled.
\<close>

theorem forward_scores_dot_product:
  assumes "well_shaped self input ctx B N I D"
  shows "\<exists>input2 scores.
      forward_scores p self B N D input ctx = Inr (input2, scores)
    \<and> shape scores = [B, N, I]
    \<and> (\<forall>b < B. \<forall>i < N. \<forall>j < I.
          storage scores ! ((b * N + i) * I + j) =
            (if masked_at self ((b * N + i) * I + j) then prim_neg_inf p
             else dot (projected self (row input (b * N + i))) (row ctx (b * I + j))))"
proof -
  from forward_scores_run [OF assms, of p] obtain input2 scores where
    run: "forward_scores p self B N D input ctx = Inr (input2, scores)"
    and rows2: "\<forall>r < B * N. row input2 r = projected self (row input r)"
    and shs: "shape scores = [B, N, I]"
    and ent: "\<forall>r < B * N. \<forall>j < I.
          storage scores ! (r * I + j) =
            (if masked_at self (r * I + j) then prim_neg_inf p
             else dot (row input2 r) (row ctx ((r div N) * I + j)))"
    by blast
  have "storage scores ! ((b * N + i) * I + j) =
            (if masked_at self ((b * N + i) * I + j) then prim_neg_inf p
             else dot (projected self (row input (b * N + i))) (row ctx (b * I + j)))"
    if "b < B" "i < N" "j < I" for b i j
  proof -
    have r: "b * N + i < B * N" by (rule idx_bound [OF that(1,2)])
    have d: "(b * N + i) div N = b" using that(2) by simp
    show ?thesis
      using ent [rule_format, OF r that(3)] rows2 [rule_format, OF r] by (simp only: d)
  qed
  then show ?thesis using run shs by blast
qed

theorem forward_scores_dot_product_witness:
  "well_shaped
      \<lparr>attention_type = ''general'',
       linear_in = Some \<lparr>shape = [2, 2], storage = [1, 2, 3, 4]\<rparr>,
       linear_out = \<lparr>shape = [2, 4], storage = [1, 0, 0, 0, 0, 1, 0, 0]\<rparr>,
       mask = None\<rparr>
      \<lparr>shape = [1, 1, 2], storage = [1, 1 :: real]\<rparr>
      \<lparr>shape = [1, 2, 2], storage = [1, 0, 0, 1]\<rparr> 1 1 2 2
   \<and> forward_scores (real_prims 0)
      \<lparr>attention_type = ''general'',
       linear_in = Some \<lparr>shape = [2, 2], storage = [1, 2, 3, 4]\<rparr>,
       linear_out = \<lparr>shape = [2, 4], storage = [1, 0, 0, 0, 0, 1, 0, 0]\<rparr>,
       mask = None\<rparr> 1 1 2
      \<lparr>shape = [1, 1, 2], storage = [1, 1]\<rparr>
      \<lparr>shape = [1, 2, 2], storage = [1, 0, 0, 1]\<rparr>
    = Inr (\<lparr>shape = [1, 1, 2], storage = [3, 7]\<rparr>, \<lparr>shape = [1, 1, 2], storage = [3, 7]\<rparr>)"
proof -
  let ?self = "\<lparr>attention_type = ''general'',
       linear_in = Some \<lparr>shape = [2, 2], storage = [1, 2, 3, 4 :: real]\<rparr>,
       linear_out = \<lparr>shape = [2, 4], storage = [1, 0, 0, 0, 0, 1, 0, 0]\<rparr>,
       mask = None\<rparr>"
  let ?x = "\<lparr>shape = [1, 1, 2], storage = [1, 1 :: real]\<rparr>"
  let ?c = "\<lparr>shape = [1, 2, 2], storage = [1, 0, 0, 1 :: real]\<rparr>"
  have ws: "well_shaped ?self ?x ?c 1 1 2 2"
    by (simp add: well_shaped_def wf_tensor_def)
  have ev: "forward_scores (real_prims 0) ?self 1 1 2 ?x ?c
      = Inr (\<lparr>shape = [1, 1, 2], storage = [3, 7]\<rparr>, \<lparr>shape = [1, 1, 2], storage = [3, 7]\<rparr>)"
    by (simp add: run_simps)
  from forward_scores_dot_product [OF ws, of "real_prims 0"]
  obtain input2 scores where
    run: "forward_scores (real_prims 0) ?self 1 1 2 ?x ?c = Inr (input2, scores)" by blast
  from run ev have "input2 = \<lparr>shape = [1, 1, 2], storage = [3, 7]\<rparr>"
    and "scores = \<lparr>shape = [1, 1, 2], storage = [3, 7]\<rparr>" by simp_all
  with run ws show ?thesis by simp
qed

text \<open>
  The claim as stated has the score a scaled dot product. On the vectors \<open>[1, 1]\<close> and
  \<open>[1, 1]\<close> the score is their dot product 2 itself: no factor other than 1 gives it. (The
  module has no mask, so the fill value of the primitives is never read.)
\<close>

theorem forward_scores_not_scaled:
  "forward_scores (real_prims 0)
      \<lparr>attention_type = ''dot'', linear_in = None,
       linear_out = \<lparr>shape = [2, 4], storage = [1, 0, 0, 0, 0, 1, 0, 0]\<rparr>,
       mask = None\<rparr> 1 1 2
      \<lparr>shape = [1, 1, 2], storage = [1, 1]\<rparr>
      \<lparr>shape = [1, 1, 2], storage = [1, 1]\<rparr>
    = Inr (\<lparr>shape = [1, 1, 2], storage = [1, 1]\<rparr>, \<lparr>shape = [1, 1, 1], storage = [2]\<rparr>)
   \<and> dot [1, 1] [1, 1] = (2 :: real)
   \<and> \<not> (\<exists>s :: real. s \<noteq> 1 \<and> 2 = s * dot [1, 1] [1, 1])"
  by (simp add: run_simps)

text \<open>
  C3. Constructing the module raises exactly when the type is neither \<open>dot\<close> nor
  \<open>general\<close>; what it raises is the assertion's exception, which is the constructor's
  result (nothing catches it); for \<open>dot\<close> and for \<open>general\<close> the constructor returns a
  module.
\<close>

theorem Attention_init_raises_iff:
  "isl (Attention_init init_in init_out dimensions msk att_type)
     = (att_type \<noteq> ''dot'' \<and> att_type \<noteq> ''general'')
   \<and> (Attention_init init_in init_out dimensions msk att_type = Inl e)
     = (att_type \<noteq> ''dot'' \<and> att_type \<noteq> ''general''
        \<and> e = AssertionError ''Invalid attention type selected.'')
   \<and> (\<exists>a. Attention_init init_in init_out dimensions msk att_type = Inr a)
     = (att_type = ''dot'' \<or> att_type = ''general'')
   \<and> (\<exists>a. Attention_init init_in init_out dimensions msk ''dot'' = Inr a
          \<and> attention_type a = ''dot'' \<and> linear_in a = None \<and> mask a = msk)
   \<and> (\<exists>a W. Attention_init init_in init_out dimensions msk ''general'' = Inr a
          \<and> attention_type a = ''general'' \<and> linear_in a = Some W
          \<and> shape W = [dimensions, dimensions] \<and> mask a = msk)"
  by (auto simp: Attention_init_def nn_Linear_def)

text \<open>
  C10. With exactly one of the three flags set the result is the single \<open>Dataset\<close> of the
  requested split; otherwise it is the tuple of the requested ones in the order train, dev,
  test, the empty tuple when none is requested. Each \<open>Dataset\<close> holds the row
  \<open>{'source': '0', 'target': '0'}\<close> as many times as its row count says (a count is a
  natural number; \<open>range\<close> of a negative number is empty).
\<close>

theorem zero_to_zero_result:
  "(let D = (\<lambda>n. Dataset (replicate (nat n) [''source'' \<mapsto> ''0'', ''target'' \<mapsto> ''0''])) in
      zero_to_zero False False False n1 n2 n3 L = Tuple []
    \<and> zero_to_zero True False False n1 n2 n3 L = Single (D n1)
    \<and> zero_to_zero False True False n1 n2 n3 L = Single (D n2)
    \<and> zero_to_zero False False True n1 n2 n3 L = Single (D n3)
    \<and> zero_to_zero True True False n1 n2 n3 L = Tuple [D n1, D n2]
    \<and> zero_to_zero True False True n1 n2 n3 L = Tuple [D n1, D n3]
    \<and> zero_to_zero False True True n1 n2 n3 L = Tuple [D n2, D n3]
    \<and> zero_to_zero True True True n1 n2 n3 L = Tuple [D n1, D n2, D n3]
    \<and> length (rows (D n1)) = nat n1
    \<and> set (rows (D n1)) \<subseteq> {[''source'' \<mapsto> ''0'', ''target'' \<mapsto> ''0'']})"
  by (simp add: zero_to_zero_def py_range_def map_replicate_const Let_def set_replicate_conv_if)

lemma row_map_storage:
  "row (t\<lparr>storage := map g (storage t)\<rparr>) r = map g (row t r)"
  by (simp add: row_def Let_def take_map drop_map)

lemma weights_rows:
  assumes sh: "shape sc = [B, N, I]" and wf: "wf_tensor sc"
    and lp: "\<And>xs. length (prim_softmax p xs) = length xs"
    and r: "r < B * N"
  shows "row \<lparr>shape = [B, N, I],
              storage = from_rows (B * N) (\<lambda>r. prim_softmax p (row sc r))\<rparr> r
       = prim_softmax p (row sc r)"
proof (rule row_from_rows [OF _ _ r])
  show "last [B, N, I] = I" by simp
  show "length (prim_softmax p (row sc r')) = I" if "r' < B * N" for r'
    using row_3d(2) [OF wf sh that] by (simp add: lp)
qed

lemma mix_step:
  assumes shw: "shape w = [B, N, I]" and shc: "shape ctx = [B, I, D]"
  shows "bmm w ctx = Inr \<lparr>shape = [B, N, D],
              storage = from_rows (B * N) (\<lambda>r. mixture (row w r) ctx (r div N))\<rparr>"
  using shw shc by (simp add: bmm_def mixture_def)

lemma mixture_length: "shape ctx = [B, I, D] \<Longrightarrow> length (mixture w ctx b) = D"
  by (simp add: mixture_def)

lemma cat_step:
  assumes "shape x = [B, N, D1]" and "shape y = [B, N, D2]"
  shows "cat_dim2 x y = Inr \<lparr>shape = [B, N, D1 + D2],
              storage = from_rows (B * N) (\<lambda>r. row x r @ row y r)\<rparr>"
  using assms by (simp add: cat_dim2_def)

lemmas forward_simps =
  forward_def softmax_def cat_dim2_def real_softmax_def mixture_def projected_out_def

lemma forward_run:
  assumes ws: "well_shaped self input ctx B N I D"
    and lp: "\<forall>xs. length (prim_softmax p xs) = length xs"
  shows "\<exists>out w input2 scores.
      forward p self input ctx = Inr (out, w)
    \<and> forward_scores p self B N D input ctx = Inr (input2, scores)
    \<and> shape scores = [B, N, I] \<and> wf_tensor scores
    \<and> shape out = [B, N, D] \<and> shape w = [B, N, I]
    \<and> (\<forall>b < B. \<forall>i < N.
          row w (b * N + i) = prim_softmax p (row scores (b * N + i))
        \<and> row input2 (b * N + i) = projected self (row input (b * N + i))
        \<and> row out (b * N + i) =
            projected_out p self
              (mixture (row w (b * N + i)) ctx b @ projected self (row input (b * N + i))))"
proof -
  from forward_scores_run [OF ws, of p] obtain input2 scores where
    run: "forward_scores p self B N D input ctx = Inr (input2, scores)"
    and sh2: "shape input2 = [B, N, D]" and wf2: "wf_tensor input2"
    and rows2: "\<forall>r < B * N. row input2 r = projected self (row input r)"
    and shs: "shape scores = [B, N, I]" and wfs: "wf_tensor scores"
    by blast
  from ws have shi: "shape input = [B, N, D]" and shc: "shape ctx = [B, I, D]"
    and shW: "shape (linear_out self) = [D, D * 2]"
    by (simp_all add: well_shaped_def)
  from lp have lp': "\<And>xs. length (prim_softmax p xs) = length xs" by simp
  let ?W = "linear_out self"
  let ?s2 = "\<lparr>shape = [B * N, I], storage = storage scores\<rparr>"
  let ?fw = "\<lambda>r. prim_softmax p (row scores r)"
  let ?w2 = "\<lparr>shape = [B * N, I], storage = from_rows (B * N) ?fw\<rparr>"
  let ?w = "\<lparr>shape = [B, N, I], storage = from_rows (B * N) ?fw\<rparr>"
  let ?fm = "\<lambda>r. mixture (row ?w r) ctx (r div N)"
  let ?mix = "\<lparr>shape = [B, N, D], storage = from_rows (B * N) ?fm\<rparr>"
  let ?fc = "\<lambda>r. row ?mix r @ row input2 r"
  let ?cmb = "\<lparr>shape = [B, N, D + D], storage = from_rows (B * N) ?fc\<rparr>"
  let ?c2 = "\<lparr>shape = [B * N, 2 * D], storage = from_rows (B * N) ?fc\<rparr>"
  let ?fo = "\<lambda>r. map (\<lambda>out. dot (row ?c2 r) (row ?W out)) [0..<D]"
  let ?o2 = "\<lparr>shape = [B * N, D], storage = from_rows (B * N) ?fo\<rparr>"
  let ?out = "\<lparr>shape = [B, N, D], storage = from_rows (B * N) ?fo\<rparr>"
  let ?res = "\<lparr>shape = [B, N, D], storage = map (prim_tanh p) (from_rows (B * N) ?fo)\<rparr>"
  have v1: "view scores [B * N, I] = Inr ?s2" by (rule view_2d [OF shs])
  have rs2: "row ?s2 r = row scores r" for r
    by (rule row_reshaped) (simp add: shs)
  have sm: "softmax p ?s2 = Inr ?w2" by (simp add: softmax_def rs2)
  have v2: "view ?w2 [B, N, I] = Inr ?w" by (simp add: view_def mult.assoc)
  have mx: "bmm ?w ctx = Inr ?mix" by (rule mix_step [of ?w B N I, simplified, OF shc])
  have ct: "cat_dim2 ?mix input2 = Inr ?cmb"
    by (rule cat_step [of ?mix B N D input2 D, simplified, OF sh2])
  have v3: "view ?cmb [B * N, 2 * D] = Inr ?c2" by (simp add: view_def algebra_simps)
  have ln: "linear ?W ?c2 = Inr ?o2" using shW by (simp add: linear_def)
  have v4: "view ?o2 [B, N, D] = Inr ?out" by (simp add: view_def mult.assoc)
  have fwd: "forward p self input ctx = Inr (?res, ?w)"
    unfolding forward_def shi shc
    by (simp add: run ebind_def v1 sm v2 mx ct v3 ln v4 del: One_nat_def)
  have rw: "row ?w r = prim_softmax p (row scores r)" if "r < B * N" for r
    by (rule weights_rows [OF shs wfs lp' that])
  have rmix: "row ?mix r = mixture (row ?w r) ctx (r div N)" if "r < B * N" for r
    by (rule row_from_rows [OF _ _ that]) (simp_all add: mixture_length [OF shc])
  have rcmb: "row ?c2 r = row ?mix r @ row input2 r" if "r < B * N" for r
  proof (rule row_from_rows [OF _ _ that])
    show "last [B * N, 2 * D] = D + D" by simp
    show "length (row ?mix r' @ row input2 r') = D + D" if "r' < B * N" for r'
      using rmix [OF that] row_3d(2) [OF wf2 sh2 that] mixture_length [OF shc] by simp
  qed
  have rout: "row ?res r = map (prim_tanh p) (?fo r)" if "r < B * N" for r
  proof -
    have "row ?res r = map (prim_tanh p) (row ?out r)"
      using row_map_storage [where t = ?out and g = "prim_tanh p" and r = r] by simp
    also have "row ?out r = ?fo r"
      by (rule row_from_rows [OF _ _ that]) simp_all
    finally show ?thesis .
  qed
  have each: "row ?w (b * N + i) = prim_softmax p (row scores (b * N + i))
        \<and> row input2 (b * N + i) = projected self (row input (b * N + i))
        \<and> row ?res (b * N + i) =
            projected_out p self
              (mixture (row ?w (b * N + i)) ctx b @ projected self (row input (b * N + i)))"
    if "b < B" "i < N" for b i
  proof -
    have r: "b * N + i < B * N" by (rule idx_bound [OF that])
    have d: "(b * N + i) div N = b" using that(2) by simp
    have "row ?res (b * N + i) = map (prim_tanh p) (?fo (b * N + i))" by (rule rout [OF r])
    also have "\<dots> = projected_out p self (row ?c2 (b * N + i))"
      by (simp add: projected_out_def shW)
    also have "row ?c2 (b * N + i)
        = mixture (row ?w (b * N + i)) ctx b @ projected self (row input (b * N + i))"
      using rcmb [OF r] rmix [OF r] rows2 [rule_format, OF r] by (simp only: d)
    finally show ?thesis
      using rw [OF r] rows2 [rule_format, OF r] by simp
  qed
  show ?thesis
    using fwd run shs wfs each
    by (intro exI [of _ ?res] exI [of _ ?w] exI [of _ input2] exI [of _ scores]) simp
qed

text \<open>
  C2. For every well-shaped \<open>input_\<close> and context, \<open>forward\<close> returns the output together
  with the attention weights. The weights at \<open>(b, i)\<close> are the softmax of the scores at
  \<open>(b, i)\<close>; the output at \<open>(b, i)\<close> is \<open>tanh\<close> of the \<open>linear_out\<close> projection of the
  concatenation of the weighted mixture of the context vectors of batch \<open>b\<close> with the input
  vector as the scores saw it: the \<open>linear_in\<close> projection of the input under \<open>general\<close>
  (the branch reassigns \<open>input_\<close>, and the concatenation reads the reassigned variable),
  the input itself under \<open>dot\<close>. The softmax primitive keeps the length of a row.
\<close>

theorem forward_output:
  assumes ws: "well_shaped self input ctx B N I D"
    and lp: "\<forall>xs. length (prim_softmax p xs) = length xs"
  shows "\<exists>out w input2 scores.
      forward p self input ctx = Inr (out, w)
    \<and> forward_scores p self B N D input ctx = Inr (input2, scores)
    \<and> shape out = [B, N, D] \<and> shape w = [B, N, I]
    \<and> (\<forall>b < B. \<forall>i < N.
          row w (b * N + i) = prim_softmax p (row scores (b * N + i))
        \<and> row input2 (b * N + i) = projected self (row input (b * N + i))
        \<and> row out (b * N + i) =
            projected_out p self
              (mixture (row w (b * N + i)) ctx b @ projected self (row input (b * N + i))))"
proof -
  from forward_run [OF ws lp] obtain out w input2 scores where
    "forward p self input ctx = Inr (out, w)"
    "forward_scores p self B N D input ctx = Inr (input2, scores)"
    "shape out = [B, N, D]" "shape w = [B, N, I]"
    "\<forall>b < B. \<forall>i < N.
          row w (b * N + i) = prim_softmax p (row scores (b * N + i))
        \<and> row input2 (b * N + i) = projected self (row input (b * N + i))
        \<and> row out (b * N + i) =
            projected_out p self
              (mixture (row w (b * N + i)) ctx b @ projected self (row input (b * N + i)))"
    by blast
  then show ?thesis by blast
qed

theorem forward_output_witness:
  "well_shaped
      \<lparr>attention_type = ''dot'', linear_in = None,
       linear_out = \<lparr>shape = [1, 2], storage = [1, 1]\<rparr>, mask = None\<rparr>
      \<lparr>shape = [1, 1, 1], storage = [1 :: real]\<rparr>
      \<lparr>shape = [1, 1, 1], storage = [5]\<rparr> 1 1 1 1
   \<and> (\<forall>xs. length (prim_softmax (real_prims 0) xs) = length xs)
   \<and> forward (real_prims 0)
      \<lparr>attention_type = ''dot'', linear_in = None,
       linear_out = \<lparr>shape = [1, 2], storage = [1, 1]\<rparr>, mask = None\<rparr>
      \<lparr>shape = [1, 1, 1], storage = [1]\<rparr>
      \<lparr>shape = [1, 1, 1], storage = [5]\<rparr>
    = Inr (\<lparr>shape = [1, 1, 1], storage = [tanh 6]\<rparr>, \<lparr>shape = [1, 1, 1], storage = [1]\<rparr>)"
proof -
  let ?self = "\<lparr>attention_type = ''dot'', linear_in = None,
       linear_out = \<lparr>shape = [1, 2], storage = [1, 1 :: real]\<rparr>, mask = None\<rparr>"
  let ?x = "\<lparr>shape = [1, 1, 1], storage = [1 :: real]\<rparr>"
  let ?c = "\<lparr>shape = [1, 1, 1], storage = [5 :: real]\<rparr>"
  have ws: "well_shaped ?self ?x ?c 1 1 1 1"
    by (simp add: well_shaped_def wf_tensor_def)
  have lp: "\<forall>xs. length (prim_softmax (real_prims 0) xs) = length xs"
    by (simp add: real_prims_def real_softmax_def)
  have ev: "forward (real_prims 0) ?self ?x ?c
      = Inr (\<lparr>shape = [1, 1, 1], storage = [tanh 6]\<rparr>, \<lparr>shape = [1, 1, 1], storage = [1]\<rparr>)"
    by (simp add: forward_simps run_simps)
  from forward_output [OF ws lp]
  obtain out w where run: "forward (real_prims 0) ?self ?x ?c = Inr (out, w)" by blast
  from run ev have "out = \<lparr>shape = [1, 1, 1], storage = [tanh 6]\<rparr>"
    and "w = \<lparr>shape = [1, 1, 1], storage = [1]\<rparr>" by simp_all
  with run ws lp show ?thesis by simp
qed

text \<open>
  The claim as stated concatenates the mixture with the original, unprojected input. Under
  \<open>general\<close> with the \<open>linear_in\<close> weight 2, the input 1, the context 5 and the
  \<open>linear_out\<close> weights 1 and 1, the mixture is 5 and the output is \<open>tanh (5 + 2)\<close>, the
  projected input 2 having been concatenated; the original input would give
  \<open>tanh (5 + 1)\<close>. (The module has no mask, so the fill value is never read.)
\<close>

theorem forward_concatenates_projected_input:
  "forward (real_prims 0)
      \<lparr>attention_type = ''general'',
       linear_in = Some \<lparr>shape = [1, 1], storage = [2]\<rparr>,
       linear_out = \<lparr>shape = [1, 2], storage = [1, 1]\<rparr>, mask = None\<rparr>
      \<lparr>shape = [1, 1, 1], storage = [1]\<rparr>
      \<lparr>shape = [1, 1, 1], storage = [5]\<rparr>
    = Inr (\<lparr>shape = [1, 1, 1], storage = [tanh 7]\<rparr>, \<lparr>shape = [1, 1, 1], storage = [1]\<rparr>)
   \<and> projected_out (real_prims 0)
      \<lparr>attention_type = ''general'',
       linear_in = Some \<lparr>shape = [1, 1], storage = [2]\<rparr>,
       linear_out = \<lparr>shape = [1, 2], storage = [1, 1]\<rparr>, mask = None\<rparr>
      (mixture [1] \<lparr>shape = [1, 1, 1], storage = [5]\<rparr> 0
         @ row \<lparr>shape = [1, 1, 1], storage = [1]\<rparr> 0)
    = [tanh 6]
   \<and> tanh (7 :: real) \<noteq> tanh 6"
  by (simp add: forward_simps run_simps)

subsection \<open>Facts about the training script\<close>

lemma train_batches_trace:
  "train_batches batches trace = trace @ concat (map batch_events batches)"
  by (induction batches arbitrary: trace) (simp_all add: batch_events_def)

lemma dev_batches_trace:
  "dev_batches batches trace
   = trace @ concat (map (\<lambda>batch. [PrepareBatch batch, Forward batch, Loss batch]) batches)"
  by (induction batches arbitrary: trace) simp_all

lemma train_epoch_trace:
  "train_epoch train_iterator dev_iterator len_dev_dataset epoch trace
   = (if len_dev_dataset = 0
      then (trace @ training_events train_iterator epoch @ [CheckpointSave]
              @ evaluation_batches dev_iterator, Some ZeroDivisionError)
      else (trace @ training_events train_iterator epoch @ [CheckpointSave]
              @ evaluation_events dev_iterator epoch, None))"
  by (simp add: train_epoch_def Let_def train_batches_trace dev_batches_trace
      training_events_def evaluation_events_def evaluation_batches_def)

lemma train_epochs_trace:
  "0 < len_dev_dataset \<Longrightarrow>
   train_epochs train_iterator dev_iterator len_dev_dataset epochs trace
   = (trace @ concat (map (\<lambda>epoch. training_events train_iterator epoch @ [CheckpointSave]
                                    @ evaluation_events dev_iterator epoch) epochs), None)"
  by (induction epochs arbitrary: trace) (simp_all add: train_epoch_trace)

lemma train_epochs_empty_dev:
  "train_epochs train_iterator dev_iterator 0 (epoch # rest) trace
   = (trace @ training_events train_iterator epoch @ [CheckpointSave]
        @ evaluation_batches dev_iterator, Some ZeroDivisionError)"
  by (simp add: train_epoch_trace)

lemma py_range_pos: "0 < n \<Longrightarrow> py_range n = 0 # map int [1..<nat n]"
  by (simp add: py_range_def upt_rec [of 0])

lemma py_range_nonpos: "n \<le> 0 \<Longrightarrow> py_range n = []"
  by (simp add: py_range_def)

lemma CheckpointSave_not_in_batches:
  "CheckpointSave \<notin> set (concat (map batch_events batches))"
  by (induction batches) (simp_all add: batch_events_def)

lemma CheckpointSave_not_in_evaluation:
  "CheckpointSave \<notin> set (evaluation_batches dev_iterator)"
  by (induction dev_iterator) (simp_all add: evaluation_batches_def)

lemma main_respelled_directory_raises:
  "main \<lparr>dirs = {''save'', ''save/run''}, files = {''save/run/1.pt''}\<rparr>
     (Some ''save//run/1.pt'') DEFAULT_SAVE_DIRECTORY train
   = Inl (FileExistsError ''save//run'')"
  by (simp add: main_def os_path_dirname_def os_makedirs_def norm_path_def ebind_def)

lemma main_resume_never_trains:
  assumes "p \<noteq> []"
    and "os_path_dirname p = [] \<or> norm_path (os_path_dirname p) \<in> dirs fs \<union> files fs"
  shows "main fs (Some p) DEFAULT_SAVE_DIRECTORY train
       = Inl (if os_path_dirname p = [] then FileNotFoundError []
              else FileExistsError (os_path_dirname p))"
  using assms by (auto simp: main_def os_makedirs_def ebind_def Let_def)

lemma main_fresh_trains:
  assumes "d \<noteq> []" and "norm_path d \<notin> dirs fs \<union> files fs"
    and "ancestors (norm_path d) \<inter> files fs = {}"
  shows "main fs None d train
       = train (fs\<lparr>dirs := insert (norm_path d) (ancestors (norm_path d) \<union> dirs fs)\<rparr>) None d"
  using assms by (simp add: main_def os_makedirs_def ebind_def Let_def)

lemma encode_rows_run:
  assumes "distinct as"
    and "\<forall>a \<in> set as. h a ''text'' \<noteq> None \<and> h a ''label'' \<noteq> None"
  shows "encode_rows te le as h
       = Inr (\<lambda>x. if x \<in> set as then encoded_row te le (h x) else h x)"
  using assms
proof (induction as arbitrary: h)
  case Nil
  show ?case by simp
next
  case (Cons a as)
  from Cons.prems obtain t l where t: "h a ''text'' = Some t" and l: "h a ''label'' = Some l"
    by auto
  let ?h2 = "h(a := encoded_row te le (h a))"
  from Cons.prems have na: "a \<notin> set as" and d: "distinct as" by simp_all
  have keys: "\<forall>x \<in> set as. ?h2 x ''text'' \<noteq> None \<and> ?h2 x ''label'' \<noteq> None"
    using Cons.prems(2) na by auto
  have step: "encode_rows te le (a # as) h = encode_rows te le as ?h2"
    by (simp add: t l encoded_row_def Let_def)
  have "encode_rows te le as ?h2
      = Inr (\<lambda>x. if x \<in> set as then encoded_row te le (?h2 x) else ?h2 x)"
    by (rule Cons.IH [OF d keys])
  also have "(\<lambda>x. if x \<in> set as then encoded_row te le (?h2 x) else ?h2 x)
      = (\<lambda>x. if x \<in> set (a # as) then encoded_row te le (h x) else h x)"
    using na by (auto simp: fun_eq_iff)
  finally have "encode_rows te le as ?h2
      = Inr (\<lambda>x. if x \<in> set (a # as) then encoded_row te le (h x) else h x)" .
  then show ?case by (simp only: step)
qed

lemma encoded_row_other_key:
  "k \<noteq> ''text'' \<Longrightarrow> k \<noteq> ''label'' \<Longrightarrow> encoded_row te le r k = r k"
  by (simp add: encoded_row_def)

text \<open>
  C6. Every epoch that runs is the training part, then one checkpoint save, then the
  evaluation on the development split. The training part handles the mini-batches one
  after the other, each as: prepare the batch, zero the gradients, forward pass, loss,
  backward pass, optimizer step. Neither the training part nor the evaluation saves a
  checkpoint, so the epoch's one save comes after all of its training batches and before
  its evaluation. With a development split that is not empty the run is these epochs in
  the order of \<open>range(epochs)\<close>. With an empty one the first epoch is the last: after
  its training batches, its checkpoint save and the batches of the evaluation, the division
  by \<open>len(dev_dataset)\<close> raises \<open>ZeroDivisionError\<close>.
\<close>

theorem train_loop_order:
  "train_loop train_iterator dev_iterator len_dev_dataset epochs
     = (if len_dev_dataset = 0 \<and> 0 < epochs
        then (training_events train_iterator 0 @ [CheckpointSave]
                @ evaluation_batches dev_iterator, Some ZeroDivisionError)
        else (concat (map (\<lambda>epoch. training_events train_iterator epoch @ [CheckpointSave]
                                    @ evaluation_events dev_iterator epoch) (py_range epochs))
              @ [LogDone], None))
   \<and> training_events train_iterator epoch
     = [LogEpoch epoch, ModelTrain True, TrainIterator]
       @ concat (map (\<lambda>batch. [PrepareBatch batch, ZeroGrad, Forward batch, Loss batch,
                                Backward, OptimizerStep]) (train_iterator epoch))
   \<and> evaluation_events dev_iterator epoch
     = evaluation_batches dev_iterator
       @ [OptimizerUpdate epoch, LogLoss, GetAccuracy, GetBucketAccuracy, GetRandomSample]
   \<and> CheckpointSave \<notin> set (training_events train_iterator epoch)
   \<and> CheckpointSave \<notin> set (evaluation_events dev_iterator epoch)"
proof -
  have run: "train_loop train_iterator dev_iterator len_dev_dataset epochs
     = (if len_dev_dataset = 0 \<and> 0 < epochs
        then (training_events train_iterator 0 @ [CheckpointSave]
                @ evaluation_batches dev_iterator, Some ZeroDivisionError)
        else (concat (map (\<lambda>epoch. training_events train_iterator epoch @ [CheckpointSave]
                                    @ evaluation_events dev_iterator epoch) (py_range epochs))
              @ [LogDone], None))"
  proof (cases "0 < len_dev_dataset")
    case True
    then show ?thesis
      by (simp add: train_loop_def train_epochs_trace)
  next
    case False
    then have z: "len_dev_dataset = 0" by simp
    show ?thesis
    proof (cases "0 < epochs")
      case True
      then show ?thesis
        by (simp add: z train_loop_def py_range_pos train_epochs_empty_dev del: train_epochs.simps)
    next
      case False
      then have "py_range epochs = []" by (simp add: py_range_nonpos)
      then show ?thesis using False by (simp add: z train_loop_def)
    qed
  qed
  have tr: "training_events train_iterator epoch
     = [LogEpoch epoch, ModelTrain True, TrainIterator]
       @ concat (map (\<lambda>batch. [PrepareBatch batch, ZeroGrad, Forward batch, Loss batch,
                                Backward, OptimizerStep]) (train_iterator epoch))"
    by (simp add: training_events_def batch_events_def [abs_def])
  have n1: "CheckpointSave \<notin> set (training_events train_iterator epoch)"
    using CheckpointSave_not_in_batches [of "train_iterator epoch"]
    by (simp add: training_events_def)
  have n2: "CheckpointSave \<notin> set (evaluation_events dev_iterator epoch)"
    using CheckpointSave_not_in_evaluation [of dev_iterator]
    by (simp add: evaluation_events_def)
  show ?thesis
    using run tr n1 n2 by (simp only: evaluation_events_def simp_thms)
qed

text \<open>
  C8. When no row object occurs more than once in the two datasets and each row has the keys
  \<open>text\<close> and \<open>label\<close>, the encoding phase completes, and afterwards the datasets are the
  same rows in the same order, each with \<open>text\<close> and \<open>label\<close> replaced by their encoded
  values; every other key of every row keeps its value, no row gains or loses a key, and
  no other object of the heap changes.
\<close>

theorem encode_datasets_frame:
  assumes "distinct (train @ dev)"
    and "\<forall>a \<in> set (train @ dev). h a ''text'' \<noteq> None \<and> h a ''label'' \<noteq> None"
  shows "\<exists>h'. encode_datasets te le [train, dev] h = Inr h'
    \<and> map h' train = map (\<lambda>a. encoded_row te le (h a)) train
    \<and> map h' dev = map (\<lambda>a. encoded_row te le (h a)) dev
    \<and> (\<forall>a k. k \<noteq> ''text'' \<and> k \<noteq> ''label'' \<longrightarrow> h' a k = h a k)
    \<and> (\<forall>a. dom (h' a) = dom (h a))
    \<and> (\<forall>a. a \<notin> set (train @ dev) \<longrightarrow> h' a = h a)"
proof -
  let ?h1 = "\<lambda>x. if x \<in> set train then encoded_row te le (h x) else h x"
  let ?h2 = "\<lambda>x. if x \<in> set dev then encoded_row te le (?h1 x) else ?h1 x"
  from assms have dt: "distinct train" and dd: "distinct dev"
    and disj: "set train \<inter> set dev = {}" by simp_all
  have kt: "\<forall>a \<in> set train. h a ''text'' \<noteq> None \<and> h a ''label'' \<noteq> None"
    using assms(2) by simp
  have kd: "\<forall>a \<in> set dev. ?h1 a ''text'' \<noteq> None \<and> ?h1 a ''label'' \<noteq> None"
    using assms(2) disj by auto
  have r1: "encode_rows te le train h = Inr ?h1" by (rule encode_rows_run [OF dt kt])
  have r2: "encode_rows te le dev ?h1 = Inr ?h2" by (rule encode_rows_run [OF dd kd])
  have run: "encode_datasets te le [train, dev] h = Inr ?h2"
    by (simp add: ebind_def r1 r2)
  have pt: "?h2 a = (if a \<in> set (train @ dev) then encoded_row te le (h a) else h a)" for a
    using disj by auto
  have dom_eq: "dom (encoded_row te le (h a)) = dom (h a)" if "a \<in> set (train @ dev)" for a
    using assms(2) that by (auto simp: encoded_row_def)
  have c1: "map ?h2 train = map (\<lambda>a. encoded_row te le (h a)) train"
    by (rule map_cong [OF refl]) (simp add: pt)
  have c2: "map ?h2 dev = map (\<lambda>a. encoded_row te le (h a)) dev"
    using disj by (intro map_cong [OF refl]) auto
  have c3: "\<forall>a k. k \<noteq> ''text'' \<and> k \<noteq> ''label'' \<longrightarrow> ?h2 a k = h a k"
    by (simp add: pt encoded_row_other_key)
  have c4: "\<forall>a. dom (?h2 a) = dom (h a)"
    using dom_eq by (simp add: pt)
  have c5: "\<forall>a. a \<notin> set (train @ dev) \<longrightarrow> ?h2 a = h a"
    by (simp add: pt)
  have "encode_datasets te le [train, dev] h = Inr ?h2
    \<and> map ?h2 train = map (\<lambda>a. encoded_row te le (h a)) train
    \<and> map ?h2 dev = map (\<lambda>a. encoded_row te le (h a)) dev
    \<and> (\<forall>a k. k \<noteq> ''text'' \<and> k \<noteq> ''label'' \<longrightarrow> ?h2 a k = h a k)
    \<and> (\<forall>a. dom (?h2 a) = dom (h a))
    \<and> (\<forall>a. a \<notin> set (train @ dev) \<longrightarrow> ?h2 a = h a)"
    using run c1 c2 c3 c4 c5 by (intro conjI)
  then show ?thesis by blast
qed

theorem encode_datasets_frame_witness:
  "\<exists>h'. encode_datasets rev (\<lambda>s. s @ s) [[0], [1]]
          ((\<lambda>a. Map.empty)
             (0 := [''text'' \<mapsto> ''ab'', ''label'' \<mapsto> ''x'', ''id'' \<mapsto> ''7''],
              1 := [''text'' \<mapsto> ''c'', ''label'' \<mapsto> ''y''])) = Inr h'
     \<and> h' 0 ''text'' = Some ''ba'' \<and> h' 0 ''label'' = Some ''xx'' \<and> h' 0 ''id'' = Some ''7''
     \<and> h' 1 ''text'' = Some ''c'' \<and> h' 1 ''label'' = Some ''yy'' \<and> h' 1 ''id'' = None
     \<and> h' 2 = Map.empty"
proof -
  let ?h = "(\<lambda>a. Map.empty)
             (0 := [''text'' \<mapsto> ''ab'', ''label'' \<mapsto> ''x'', ''id'' \<mapsto> ''7''],
              1 := [''text'' \<mapsto> ''c'', ''label'' \<mapsto> ''y'']) :: string heap"
  have d: "distinct ([0] @ [1 :: nat])" by simp
  have k: "\<forall>a \<in> set ([0] @ [1]). ?h a ''text'' \<noteq> None \<and> ?h a ''label'' \<noteq> None" by simp
  from encode_datasets_frame [OF d k, of rev "\<lambda>s. s @ s"]
  obtain h' where run: "encode_datasets rev (\<lambda>s. s @ s) [[0], [1]] ?h = Inr h'"
    and r0: "map h' [0] = map (\<lambda>a. encoded_row rev (\<lambda>s. s @ s) (?h a)) [0]"
    and r1: "map h' [1] = map (\<lambda>a. encoded_row rev (\<lambda>s. s @ s) (?h a)) [1]"
    and other: "\<forall>a. a \<notin> set ([0] @ [1]) \<longrightarrow> h' a = ?h a"
    by blast
  from r0 have h0: "h' 0 = encoded_row rev (\<lambda>s. s @ s) (?h 0)" by simp
  from r1 have h1: "h' 1 = encoded_row rev (\<lambda>s. s @ s) (?h 1)" by simp
  from other have h2: "h' 2 = ?h 2" by simp
  have e0: "h' 0 ''text'' = Some ''ba'' \<and> h' 0 ''label'' = Some ''xx'' \<and> h' 0 ''id'' = Some ''7''"
    unfolding h0 by (simp add: encoded_row_def)
  have e1: "h' 1 ''text'' = Some ''c'' \<and> h' 1 ''label'' = Some ''yy'' \<and> h' 1 ''id'' = None"
    unfolding h1 by (simp add: encoded_row_def)
  have e2: "h' 2 = Map.empty"
    unfolding h2 by simp
  from run e0 e1 e2 show ?thesis by blast
qed

text \<open>
  The claim as stated speaks of every row, whatever the datasets. A row object that occurs in
  both datasets (or twice in one) is encoded once for each occurrence: below, row 0 has the
  text \<open>ab\<close> and the label \<open>x\<close>, the encoders are \<open>rev\<close> and doubling, and the row ends
  with the text \<open>ab\<close> and the label \<open>xxxx\<close>, where the encoded values are \<open>ba\<close> and
  \<open>xx\<close>.
\<close>

theorem encode_datasets_shared_row:
  "map_sum id (\<lambda>h'. (h' 0 ''text'', h' 0 ''label''))
     (encode_datasets rev (\<lambda>s. s @ s) [[0], [0]]
        ((\<lambda>a. Map.empty) (0 := [''text'' \<mapsto> ''ab'', ''label'' \<mapsto> ''x''])))
     = Inr (Some ''ab'', Some ''xxxx'')
   \<and> encoded_row rev (\<lambda>s. s @ s) [''text'' \<mapsto> ''ab'', ''label'' \<mapsto> ''x''] ''text'' = Some ''ba''
   \<and> encoded_row rev (\<lambda>s. s @ s) [''text'' \<mapsto> ''ab'', ''label'' \<mapsto> ''x''] ''label'' = Some ''xx''"
  by (simp add: ebind_def encoded_row_def)

text \<open>
  C9. With a seed given, the result of \<open>resplit_datasets\<close> does not depend on the hidden
  input of the call, the entropy the generator would otherwise be seeded from: two calls
  with the same datasets, the same seed and the same cut return the same pair of datasets.
\<close>

theorem resplit_datasets_deterministic:
  "resplit_datasets Random shuffle round_times entropy1 dataset other_dataset (Some seed) cut_arg
   = resplit_datasets Random shuffle round_times entropy2 dataset other_dataset (Some seed) cut_arg"
  by (simp add: resplit_datasets_def)

text \<open>
  C7. Resuming from a checkpoint that exists: the checkpoint \<open>save/run/1.pt\<close> lies in the
  directory \<open>save/run\<close>, which therefore exists, and that directory is what the script hands
  to \<open>os.makedirs\<close>. The call raises \<open>FileExistsError\<close>, and \<open>train\<close> is never called,
  whatever it would do.
\<close>

theorem main_resume_raises:
  "main \<lparr>dirs = {''save'', ''save/run''}, files = {''save/run/1.pt''}\<rparr>
     (Some ''save/run/1.pt'') DEFAULT_SAVE_DIRECTORY train
   = Inl (FileExistsError ''save/run'')"
  by (simp add: main_def os_path_dirname_def os_makedirs_def norm_path_def ebind_def)

subsection \<open>Further facts about the module\<close>

text \<open>
  A module that the constructor returns for \<open>dimensions\<close> fits every input and context of
  that many features.
\<close>

lemma Attention_init_well_shaped:
  assumes "Attention_init init_in init_out D msk att_type = Inr self"
    and "shape input = [B, N, D]" and "wf_tensor input"
    and "shape ctx = [B, I, D]" and "wf_tensor ctx"
    and "case msk of None \<Rightarrow> True | Some m \<Rightarrow> shape m = [B, N, I] \<and> wf_tensor m"
  shows "well_shaped self input ctx B N I D"
  using assms
  by (auto simp: Attention_init_def well_shaped_def nn_Linear_def wf_tensor_def
      split: if_splits option.splits)





lemma real_softmax_empty: "sum_list (real_softmax []) = 0"
  by (simp add: real_softmax_def)





end
